theory Spec2Isabelle
  imports Main "HOL-Library.Word" "HOL-Library.Multiset"
begin

unbundle bit_operations_syntax

section \<open>The environment of lfinder\<close>

text \<open>
  lfinder walks a directory tree and reports the symbolic links and the hard links of a
  target file. The repository holds two versions of the program. The one modelled here is
  the current one, the file that declares \<^verbatim>\<open>Config\<close>, \<^verbatim>\<open>getInode\<close>,
  \<^verbatim>\<open>checkAndSendSymlink\<close>, \<^verbatim>\<open>checkAndSendHardlink\<close>, \<^verbatim>\<open>shouldSkipDir\<close>,
  \<^verbatim>\<open>worker\<close> and \<^verbatim>\<open>main\<close> with a context, a timeout and a skip list; every
  definition of the section on the program follows that file, function by function. The
  older \<^verbatim>\<open>main.go\<close> is the same pipeline without context, timeout, skip list and
  \<^verbatim>\<open>getInode\<close>: it reads the inode by an unchecked type assertion, joins the search
  path and the target even when the target is absolute, and compares the resolved path of
  a link with the target string as it stands; its worker has the same three branches.

  Everything else (the operating system, Go's \<^verbatim>\<open>os\<close>, \<^verbatim>\<open>path/filepath\<close> and
  \<^verbatim>\<open>context\<close> packages, the scheduler) is the program's environment, and a parameter of
  every definition below: the operating system as a record of the calls the code makes,
  the context as the value a \<^verbatim>\<open>select\<close> sees, the scheduler as the list of outcomes of
  the \<^verbatim>\<open>select\<close> statements of a goroutine. Two parts of Go's library are written
  out, because the behaviour of main depends on them: the walk of
  \<^verbatim>\<open>filepath.WalkDir\<close>, and what \<^verbatim>\<open>flag.Parse\<close> does with the flags main declares
  (with \<^verbatim>\<open>strconv.ParseInt\<close> as a parameter).
\<close>

subsection \<open>Errors and contexts\<close>

text \<open>\<^verbatim>\<open>ctx.Err()\<close> of a context that is done: \<^verbatim>\<open>context.Canceled\<close> or
  \<^verbatim>\<open>context.DeadlineExceeded\<close>.\<close>

datatype ctx_err = Canceled | DeadlineExceeded

text \<open>What a \<^verbatim>\<open>select\<close> with a \<^verbatim>\<open>case <-ctx.Done()\<close> arm saw: \<open>None\<close> when
  the other arm (\<^verbatim>\<open>default\<close>, or the channel operation) was taken, \<open>Some e\<close> when
  the \<^verbatim>\<open>ctx.Done()\<close> arm was taken and \<^verbatim>\<open>ctx.Err()\<close> is \<open>e\<close>.\<close>

type_synonym ctx = "ctx_err option"

text \<open>Go's \<^verbatim>\<open>error\<close> values of this program: the two \<^verbatim>\<open>fmt.Errorf\<close> errors of
  \<^verbatim>\<open>getInode\<close>, an error of the operating system (with its message), the error of a
  context, and \<^verbatim>\<open>fs.SkipDir\<close>.\<close>

datatype error = Errorf string | OsError string | CtxError ctx_err | SkipDir

fun error_string :: "error \<Rightarrow> string" where
  "error_string (Errorf s) = s"
| "error_string (OsError s) = s"
| "error_string (CtxError Canceled) = ''context canceled''"
| "error_string (CtxError DeadlineExceeded) = ''context deadline exceeded''"
| "error_string SkipDir = ''skip this directory''"

subsection \<open>File metadata\<close>

text \<open>\<^verbatim>\<open>fs.FileMode\<close> is a \<^verbatim>\<open>uint32\<close>; the type bits are those of Go's
  \<^verbatim>\<open>io/fs\<close>: \<^verbatim>\<open>ModeDir = 1<<31\<close>, \<^verbatim>\<open>ModeSymlink = 1<<27\<close>,
  \<^verbatim>\<open>ModeDevice = 1<<26\<close>, \<^verbatim>\<open>ModeNamedPipe = 1<<25\<close>, \<^verbatim>\<open>ModeSocket = 1<<24\<close>,
  \<^verbatim>\<open>ModeCharDevice = 1<<21\<close>, \<^verbatim>\<open>ModeIrregular = 1<<19\<close>, and \<^verbatim>\<open>ModeType\<close>
  their union.\<close>

type_synonym FileMode = "32 word"

definition ModeDir :: FileMode where "ModeDir = 0x80000000"
definition ModeSymlink :: FileMode where "ModeSymlink = 0x08000000"
definition ModeDevice :: FileMode where "ModeDevice = 0x04000000"
definition ModeNamedPipe :: FileMode where "ModeNamedPipe = 0x02000000"
definition ModeSocket :: FileMode where "ModeSocket = 0x01000000"
definition ModeCharDevice :: FileMode where "ModeCharDevice = 0x00200000"
definition ModeIrregular :: FileMode where "ModeIrregular = 0x00080000"

definition ModeType :: FileMode where
  "ModeType = ModeDir OR ModeSymlink OR ModeNamedPipe OR ModeSocket OR ModeDevice
     OR ModeCharDevice OR ModeIrregular"

definition IsDir :: "FileMode \<Rightarrow> bool" where
  "IsDir m \<longleftrightarrow> m AND ModeDir \<noteq> 0"

definition IsRegular :: "FileMode \<Rightarrow> bool" where
  "IsRegular m \<longleftrightarrow> m AND ModeType = 0"

text \<open>\<^verbatim>\<open>info.Sys()\<close> is an \<^verbatim>\<open>any\<close>. In the metadata that \<^verbatim>\<open>os.Stat\<close> and
  \<^verbatim>\<open>os.Lstat\<close> return it is a \<^verbatim>\<open>*syscall.Stat_t\<close> that points to the result of the
  system call, with its inode number \<^verbatim>\<open>Ino\<close> (a \<^verbatim>\<open>uint64\<close>), or, where the system
  has none, a value of another type: \<open>FileInfo\<close> is the metadata of these two calls, the
  only metadata main and the worker ever hold.\<close>

datatype sys_payload = Stat_t (Ino: "64 word") | OtherSys

record FileInfo =
  Mode :: FileMode
  Sys :: sys_payload

text \<open>\<^verbatim>\<open>fs.FileInfo\<close> is an interface, and \<^verbatim>\<open>Sys()\<close> of another implementation of
  it may return any value at all. What a type assertion to \<^verbatim>\<open>*syscall.Stat_t\<close> can tell
  apart: a pointer of that type, which is nil (\<open>None\<close>) or points to a \<^verbatim>\<open>Stat_t\<close>
  with the inode number \<^verbatim>\<open>Ino\<close>, and a value of any other dynamic type, the nil
  interface included. \<open>sysValue\<close> is the payload of \<^verbatim>\<open>os.Stat\<close> and \<^verbatim>\<open>os.Lstat\<close>
  among them.\<close>

datatype sys_value = Stat_t_ptr "64 word option" | Other_value

fun sysValue :: "sys_payload \<Rightarrow> sys_value" where
  "sysValue (Stat_t ino) = Stat_t_ptr (Some ino)"
| "sysValue OtherSys = Other_value"

text \<open>A call of a Go function returns, or panics.\<close>

datatype 'a outcome = Panic | Returns 'a

record os_env =
  GOOS :: string
  Lstat :: "string \<Rightarrow> error + FileInfo"
  Stat :: "string \<Rightarrow> error + FileInfo"
  Readlink :: "string \<Rightarrow> error + string"
  EvalSymlinks :: "string \<Rightarrow> error + string"
  Abs :: "string \<Rightarrow> error + string"
  IsAbs :: "string \<Rightarrow> bool"
  Join :: "string \<Rightarrow> string \<Rightarrow> string"

section \<open>The program\<close>

record Config =
  SymlinksOnly :: bool
  HardlinksOnly :: bool
  SearchPath :: string
  SkipDirs :: "string list"
  Timeout :: "64 word"

subsection \<open>getInode\<close>

text \<open>\<^verbatim>\<open>getInode\<close> on the metadata of \<^verbatim>\<open>os.Stat\<close> and \<^verbatim>\<open>os.Lstat\<close>, which is
  what main and \<^verbatim>\<open>checkAndSendHardlink\<close> pass to it.\<close>

definition getInode :: "os_env \<Rightarrow> FileInfo \<Rightarrow> error + 64 word" where
  "getInode env info =
     (if GOOS env = ''windows''
      then Inl (Errorf ''hard links detection not supported on Windows'')
      else case Sys info of
             OtherSys \<Rightarrow> Inl (Errorf ''unable to get system file info'')
           | Stat_t ino \<Rightarrow> Inr ino)"

text \<open>\<^verbatim>\<open>getInode\<close> on any \<^verbatim>\<open>fs.FileInfo\<close>, by what its \<^verbatim>\<open>Sys()\<close> returns. The
  assertion \<^verbatim>\<open>stat, ok := info.Sys().(*syscall.Stat_t)\<close> tests the dynamic type only:
  \<^verbatim>\<open>ok\<close> is true of a nil pointer of that type as well, and \<^verbatim>\<open>stat.Ino\<close> then
  dereferences nil, which is a run-time panic.\<close>

definition getInodeAny :: "os_env \<Rightarrow> sys_value \<Rightarrow> (error + 64 word) outcome" where
  "getInodeAny env sys =
     (if GOOS env = ''windows''
      then Returns (Inl (Errorf ''hard links detection not supported on Windows''))
      else case sys of
             Other_value \<Rightarrow> Returns (Inl (Errorf ''unable to get system file info''))
           | Stat_t_ptr stat \<Rightarrow>
               (case stat of
                  None \<Rightarrow> Panic
                | Some ino \<Rightarrow> Returns (Inr ino)))"

subsection \<open>The two checks\<close>

text \<open>A check returns its \<^verbatim>\<open>error\<close> (\<open>None\<close> for nil) and the strings it sent on the
  \<^verbatim>\<open>results\<close> channel. \<open>entry\<close> is what the first \<^verbatim>\<open>select\<close> saw of the context,
  \<open>send\<close> what the \<^verbatim>\<open>select\<close> around the send saw (\<open>None\<close>: the string was sent).\<close>

definition checkAndSendSymlink ::
  "os_env \<Rightarrow> ctx \<Rightarrow> ctx \<Rightarrow> string \<Rightarrow> string \<Rightarrow> error option \<times> string list" where
  "checkAndSendSymlink env entry send path target =
     (case entry of
        Some e \<Rightarrow> (Some (CtxError e), [])
      | None \<Rightarrow>
         (case EvalSymlinks env path of
            Inl err \<Rightarrow> (Some err, [])
          | Inr resolved \<Rightarrow>
             (case Abs env target of
                Inl err \<Rightarrow> (Some err, [])
              | Inr targetCanonical \<Rightarrow>
                 (case Abs env resolved of
                    Inl err \<Rightarrow> (Some err, [])
                  | Inr resolvedCanonical \<Rightarrow>
                     if resolvedCanonical = targetCanonical
                     then (case Readlink env path of
                             Inl err \<Rightarrow> (Some err, [])
                           | Inr linkTarget \<Rightarrow>
                              (case send of
                                 None \<Rightarrow> (None, [path @ '' (symlink) -> '' @ linkTarget])
                               | Some e \<Rightarrow> (Some (CtxError e), [])))
                     else (None, [])))))"

definition checkAndSendHardlink ::
  "os_env \<Rightarrow> ctx \<Rightarrow> ctx \<Rightarrow> string \<Rightarrow> 64 word \<Rightarrow> FileInfo \<Rightarrow> error option \<times> string list" where
  "checkAndSendHardlink env entry send path targetInode fileInfo =
     (case entry of
        Some e \<Rightarrow> (Some (CtxError e), [])
      | None \<Rightarrow>
         (case getInode env fileInfo of
            Inl err \<Rightarrow> (Some err, [])
          | Inr fileInode \<Rightarrow>
             if fileInode = targetInode
             then (case send of
                     None \<Rightarrow> (None, [path @ '' (hardlink)''])
                   | Some e \<Rightarrow> (Some (CtxError e), []))
             else (None, [])))"

subsection \<open>shouldSkipDir\<close>

fun shouldSkipDir :: "string \<Rightarrow> string list \<Rightarrow> bool" where
  "shouldSkipDir path [] = False"
| "shouldSkipDir path (dir # skipDirs) = (if path = dir then True else shouldSkipDir path skipDirs)"

subsection \<open>worker\<close>

text \<open>The body of the worker's loop for a path it received: the results it sends. The
  worker drops the error a check returns.\<close>

definition workerStep ::
  "os_env \<Rightarrow> Config \<Rightarrow> string \<Rightarrow> 64 word \<Rightarrow> ctx \<Rightarrow> ctx \<Rightarrow> string \<Rightarrow> string list" where
  "workerStep env config target targetInode entry send path =
     (case Lstat env path of
        Inl err \<Rightarrow> []
      | Inr fileInfo \<Rightarrow>
         if SymlinksOnly config \<and> Mode fileInfo AND ModeSymlink \<noteq> 0
         then snd (checkAndSendSymlink env entry send path target)
         else if HardlinksOnly config \<and> \<not> IsDir (Mode fileInfo) \<and> IsRegular (Mode fileInfo)
         then snd (checkAndSendHardlink env entry send path targetInode fileInfo)
         else if \<not> SymlinksOnly config \<and> \<not> HardlinksOnly config
         then (if Mode fileInfo AND ModeSymlink \<noteq> 0
               then snd (checkAndSendSymlink env entry send path target)
               else if IsRegular (Mode fileInfo)
               then snd (checkAndSendHardlink env entry send path targetInode fileInfo)
               else [])
         else [])"

text \<open>What one iteration of a receiving \<^verbatim>\<open>select\<close> loop gets: the context is done,
  the channel is closed, or a value.\<close>

datatype 'a recv = Done ctx_err | Closed | Got 'a

text \<open>The worker's loop over the outcomes of its \<^verbatim>\<open>select\<close>; a job comes with what
  the two \<^verbatim>\<open>select\<close>s of its check see. The empty list is a worker that waits.\<close>

fun worker ::
  "os_env \<Rightarrow> Config \<Rightarrow> string \<Rightarrow> 64 word \<Rightarrow> (string \<times> ctx \<times> ctx) recv list \<Rightarrow> string list" where
  "worker env config target targetInode [] = []"
| "worker env config target targetInode (Done e # evs) = []"
| "worker env config target targetInode (Closed # evs) = []"
| "worker env config target targetInode (Got (path, entry, send) # evs) =
     workerStep env config target targetInode entry send path
       @ worker env config target targetInode evs"

subsection \<open>The walker\<close>

text \<open>The directory tree under the search path, as \<^verbatim>\<open>filepath.WalkDir\<close> reads it: a
  regular file and a symbolic link with their inode numbers (and the link's text), a
  directory with its inode number, the error of \<^verbatim>\<open>os.ReadDir\<close> on it, if any, and the
  entries \<^verbatim>\<open>os.ReadDir\<close> returns, in that order.\<close>

datatype node =
    File "64 word"
  | Symlink "64 word" string
  | Dir "64 word" "error option" "(string \<times> node) list"

text \<open>The callback main hands to \<^verbatim>\<open>filepath.WalkDir\<close>: its \<^verbatim>\<open>error\<close> and the
  paths it sent on the \<^verbatim>\<open>jobs\<close> channel. \<open>isDir\<close> is \<^verbatim>\<open>d.IsDir()\<close> and \<open>err\<close>
  the callback's third argument.\<close>

definition walkFn ::
  "Config \<Rightarrow> ctx \<Rightarrow> ctx \<Rightarrow> string \<Rightarrow> bool \<Rightarrow> error option \<Rightarrow> error option \<times> string list" where
  "walkFn config entry send path isDir err =
     (case entry of
        Some e \<Rightarrow> (Some (CtxError e), [])
      | None \<Rightarrow>
         if err \<noteq> None then (None, [])
         else if isDir \<and> shouldSkipDir path (SkipDirs config) then (Some SkipDir, [])
         else (case send of
                 None \<Rightarrow> (None, [path])
               | Some e \<Rightarrow> (Some (CtxError e), [])))"

text \<open>\<^verbatim>\<open>walkDir\<close> of \<^verbatim>\<open>path/filepath\<close> with that callback. \<open>sched path again\<close> is
  what the two \<^verbatim>\<open>select\<close>s of the callback see when it is called on \<open>path\<close>
  (\<open>again\<close>: the second call, which reports the error of \<^verbatim>\<open>os.ReadDir\<close>).
  \<^verbatim>\<open>fs.SkipDir\<close> from a directory skips the directory, from an entry the rest of the
  entries; any other error ends the walk. A symbolic link is never followed.\<close>

fun walkDir ::
    "os_env \<Rightarrow> Config \<Rightarrow> (string \<Rightarrow> bool \<Rightarrow> ctx \<times> ctx) \<Rightarrow> string \<Rightarrow> node
       \<Rightarrow> error option \<times> string list"
  and walkEntries ::
    "os_env \<Rightarrow> Config \<Rightarrow> (string \<Rightarrow> bool \<Rightarrow> ctx \<times> ctx) \<Rightarrow> string \<Rightarrow> (string \<times> node) list
       \<Rightarrow> error option \<times> string list"
  where
  "walkDir env config sched path (File ino) =
     walkFn config (fst (sched path False)) (snd (sched path False)) path False None"
| "walkDir env config sched path (Symlink ino link) =
     walkFn config (fst (sched path False)) (snd (sched path False)) path False None"
| "walkDir env config sched path (Dir ino readErr entries) =
     (case walkFn config (fst (sched path False)) (snd (sched path False)) path True None of
        (Some err, jobs) \<Rightarrow> (if err = SkipDir then None else Some err, jobs)
      | (None, jobs) \<Rightarrow>
         (case readErr of
            None \<Rightarrow>
              (case walkEntries env config sched path entries of
                 (r, jobs') \<Rightarrow> (r, jobs @ jobs'))
          | Some e \<Rightarrow>
              (case walkFn config (fst (sched path True)) (snd (sched path True)) path True
                      (Some e) of
                 (Some err, jobs2) \<Rightarrow> (if err = SkipDir then None else Some err, jobs @ jobs2)
               | (None, jobs2) \<Rightarrow>
                  (case walkEntries env config sched path entries of
                     (r, jobs') \<Rightarrow> (r, jobs @ jobs2 @ jobs')))))"
| "walkEntries env config sched path [] = (None, [])"
| "walkEntries env config sched path ((name, n) # rest) =
     (case walkDir env config sched (Join env path name) n of
        (Some err, jobs) \<Rightarrow> (if err = SkipDir then None else Some err, jobs)
      | (None, jobs) \<Rightarrow>
         (case walkEntries env config sched path rest of
            (r, jobs') \<Rightarrow> (r, jobs @ jobs')))"

text \<open>\<^verbatim>\<open>filepath.WalkDir\<close>: \<open>tree\<close> is what \<^verbatim>\<open>os.Lstat(root)\<close> finds, an error or
  the node at the root.\<close>

definition WalkDir ::
  "os_env \<Rightarrow> Config \<Rightarrow> (string \<Rightarrow> bool \<Rightarrow> ctx \<times> ctx) \<Rightarrow> string \<Rightarrow> error + node
     \<Rightarrow> error option \<times> string list" where
  "WalkDir env config sched root tree =
     (case (case tree of
              Inl err \<Rightarrow> walkFn config (fst (sched root False)) (snd (sched root False)) root
                           False (Some err)
            | Inr n \<Rightarrow> walkDir env config sched root n) of
        (r, jobs) \<Rightarrow> (if r = Some SkipDir then None else r, jobs))"

text \<open>The walker goroutine: the jobs it sends before it closes the channel, and what it
  prints.\<close>

definition walker ::
  "os_env \<Rightarrow> Config \<Rightarrow> (string \<Rightarrow> bool \<Rightarrow> ctx \<times> ctx) \<Rightarrow> error + node
     \<Rightarrow> string list \<times> string list" where
  "walker env config sched tree =
     (case WalkDir env config sched (SearchPath config) tree of
        (err, jobs) \<Rightarrow>
          (jobs,
           if err \<noteq> None \<and> err \<noteq> Some (CtxError Canceled)
              \<and> err \<noteq> Some (CtxError DeadlineExceeded)
           then [''Error walking the path: '' @ error_string (the err)]
           else []))"

text \<open>The tree the walk cannot tell from the given one: every directory whose path (as
  the walk forms it, from \<open>path\<close> on) is in the skip list is emptied, and nothing else
  changes.\<close>

fun prune :: "os_env \<Rightarrow> Config \<Rightarrow> string \<Rightarrow> node \<Rightarrow> node"
  and pruneEntries :: "os_env \<Rightarrow> Config \<Rightarrow> string \<Rightarrow> (string \<times> node) list \<Rightarrow> (string \<times> node) list"
  where
  "prune env config path (File ino) = File ino"
| "prune env config path (Symlink ino link) = Symlink ino link"
| "prune env config path (Dir ino readErr entries) =
     (if shouldSkipDir path (SkipDirs config) then Dir ino None []
      else Dir ino readErr (pruneEntries env config path entries))"
| "pruneEntries env config path [] = []"
| "pruneEntries env config path ((name, n) # rest) =
     (name, prune env config (Join env path name) n) # pruneEntries env config path rest"

subsection \<open>main\<close>

text \<open>A process: it has exited with a status and the lines on its standard output, or
  it is still waiting, with the lines printed so far.\<close>

datatype proc = Exit nat "string list" | Waiting "string list"

text \<open>main up to the creation of the channels: it ends the process
  (\<^verbatim>\<open>os.Exit(1)\<close>), or goes on with \<^verbatim>\<open>targetPath\<close>, \<^verbatim>\<open>targetInode\<close> and the
  lines printed. \<open>config\<close> is the \<^verbatim>\<open>Config\<close> after \<^verbatim>\<open>flag.Parse\<close>, \<open>args\<close> are
  \<^verbatim>\<open>flag.Args()\<close>.\<close>

datatype setup_result = Abort nat "string list" | Ready string "64 word" "string list"

definition targetPathOf :: "os_env \<Rightarrow> Config \<Rightarrow> string \<Rightarrow> string" where
  "targetPathOf env config target =
     (if \<not> IsAbs env target then Join env (SearchPath config) target else target)"

definition setup_main :: "os_env \<Rightarrow> Config \<Rightarrow> string list \<Rightarrow> setup_result" where
  "setup_main env config args =
     (if length args \<noteq> 1
      then Abort 1 [''Usage: lfinder [-s|-h] [-p path] [-t timeout] <target_file_name>'']
      else
        let target = args ! 0;
            targetPath = targetPathOf env config target
        in case Stat env targetPath of
             Inl err \<Rightarrow> Abort 1 [''Error accessing target file: '' @ error_string err]
           | Inr targetInfo \<Rightarrow>
              (case getInode env targetInfo of
                 Inl err \<Rightarrow>
                   (let out = [''Error getting target inode: '' @ error_string err]
                          @ (if GOOS env = ''windows''
                             then [''Note: Hard link detection is not supported on Windows'']
                             else [])
                    in if HardlinksOnly config then Abort 1 out
                       else Ready targetPath 0 out)
               | Inr targetInode \<Rightarrow> Ready targetPath targetInode []))"

text \<open>The loop that prints the results, over the outcomes of its \<^verbatim>\<open>select\<close>. main
  returns from it, and the process exits with status 0.\<close>

fun drain :: "string recv list \<Rightarrow> string list \<Rightarrow> proc" where
  "drain [] out = Waiting out"
| "drain (Done e # evs) out =
     Exit 0 (out @ (if e = DeadlineExceeded then [''Search timed out'']
                    else if e = Canceled then [''Search canceled''] else []))"
| "drain (Closed # evs) out = Exit 0 out"
| "drain (Got result # evs) out = drain evs (out @ [result])"

text \<open>The arms of the \<^verbatim>\<open>select\<close> of that loop that can proceed, given the state of the
  context (\<open>Some e\<close>: done, with \<^verbatim>\<open>ctx.Err()\<close> \<open>e\<close>), the results sent and not yet
  received, and whether the channel is closed; Go takes one of them. \<open>feasible\<close>: a
  sequence of outcomes the loop can see once the context is done, while no further result
  is sent.\<close>

definition ready :: "ctx \<Rightarrow> string list \<Rightarrow> bool \<Rightarrow> string recv list" where
  "ready c buffer closed =
     (case c of Some e \<Rightarrow> [Done e] | None \<Rightarrow> [])
     @ (case buffer of r # rs \<Rightarrow> [Got r] | [] \<Rightarrow> if closed then [Closed] else [])"

fun feasible :: "ctx \<Rightarrow> string list \<Rightarrow> bool \<Rightarrow> string recv list \<Rightarrow> bool" where
  "feasible c buffer closed [] = True"
| "feasible c buffer closed (Got r # evs) =
     (Got r \<in> set (ready c buffer closed) \<and> feasible c (tl buffer) closed evs)"
| "feasible c buffer closed (ev # evs) = (ev \<in> set (ready c buffer closed) \<and> evs = [])"

text \<open>The main goroutine, given the outcomes of the \<^verbatim>\<open>select\<close> of its loop.\<close>

definition main :: "os_env \<Rightarrow> Config \<Rightarrow> string list \<Rightarrow> string recv list \<Rightarrow> proc" where
  "main env config args evs =
     (case setup_main env config args of
        Abort status out \<Rightarrow> Exit status out
      | Ready targetPath targetInode out \<Rightarrow> drain evs out)"

text \<open>The \<^verbatim>\<open>Config\<close> main builds from the flags \<^verbatim>\<open>-s\<close>, \<^verbatim>\<open>-h\<close>, \<^verbatim>\<open>-p\<close> and
  \<^verbatim>\<open>-t\<close> (minutes; a \<^verbatim>\<open>time.Duration\<close> is an \<^verbatim>\<open>int64\<close> of nanoseconds).\<close>

definition mkConfig :: "bool \<Rightarrow> bool \<Rightarrow> string \<Rightarrow> 64 word \<Rightarrow> Config" where
  "mkConfig s h p t =
     \<lparr>SymlinksOnly = s, HardlinksOnly = h, SearchPath = p,
      SkipDirs = [''/proc'', ''/sys'', ''/dev''], Timeout = t * 60000000000\<rparr>"

text \<open>\<^verbatim>\<open>flag.Parse\<close> on the command line \<^verbatim>\<open>os.Args[1:]\<close>, with the four flags main
  declares: the loop of \<^verbatim>\<open>FlagSet.Parse\<close> over \<^verbatim>\<open>parseOne\<close> of Go's \<^verbatim>\<open>flag\<close>
  package. An argument shorter than two characters or without a leading \<^verbatim>\<open>-\<close> ends the
  flags and stays an argument; \<^verbatim>\<open>--\<close> ends them and is dropped. A flag has one or two
  minus signs, a name and, after the first \<^verbatim>\<open>=\<close>, a value. A boolean flag without a
  value is set to true and with one to \<^verbatim>\<open>strconv.ParseBool\<close> of it; \<^verbatim>\<open>-p\<close> and
  \<^verbatim>\<open>-t\<close> take the next argument when they come without a value; \<open>parseInt\<close> is
  \<^verbatim>\<open>strconv.ParseInt(value, 0, strconv.IntSize)\<close>, \<open>None\<close> when it returns an error.
  A name that is not declared is an error, and \<^verbatim>\<open>flag.ErrHelp\<close> when it is
  \<^verbatim>\<open>help\<close> (\<^verbatim>\<open>h\<close> is declared here). The result is the error, or the
  \<^verbatim>\<open>Config\<close> with \<^verbatim>\<open>flag.Args()\<close>.\<close>

definition ParseBool :: "string \<Rightarrow> bool option" where
  "ParseBool str =
     (if str \<in> set [''1'', ''t'', ''T'', ''TRUE'', ''true'', ''True''] then Some True
      else if str \<in> set [''0'', ''f'', ''F'', ''FALSE'', ''false'', ''False''] then Some False
      else None)"

datatype parsed = FlagError | ErrHelp | Parsed Config "string list"

fun parseFlags ::
  "(string \<Rightarrow> 64 word option) \<Rightarrow> bool \<Rightarrow> bool \<Rightarrow> string \<Rightarrow> 64 word \<Rightarrow> string list \<Rightarrow> parsed" where
  "parseFlags parseInt s h p t [] = Parsed (mkConfig s h p t) []"
| "parseFlags parseInt s h p t (a # args) =
     (if length a < 2 \<or> hd a \<noteq> CHR ''-'' then Parsed (mkConfig s h p t) (a # args)
      else if a = ''--'' then Parsed (mkConfig s h p t) args
      else
        let flagText = (if a ! 1 = CHR ''-'' then drop 2 a else drop 1 a)
        in if flagText = [] \<or> hd flagText = CHR ''-'' \<or> hd flagText = CHR ''='' then FlagError
           else
             let name = takeWhile (\<lambda>c. c \<noteq> CHR ''='') flagText;
                 hasValue = (CHR ''='' \<in> set flagText);
                 val = drop 1 (dropWhile (\<lambda>c. c \<noteq> CHR ''='') flagText)
             in if name = ''s''
                then (if hasValue
                      then (case ParseBool val of
                              None \<Rightarrow> FlagError
                            | Some b \<Rightarrow> parseFlags parseInt b h p t args)
                      else parseFlags parseInt True h p t args)
                else if name = ''h''
                then (if hasValue
                      then (case ParseBool val of
                              None \<Rightarrow> FlagError
                            | Some b \<Rightarrow> parseFlags parseInt s b p t args)
                      else parseFlags parseInt s True p t args)
                else if name = ''p''
                then (if hasValue then parseFlags parseInt s h val t args
                      else (case args of
                              [] \<Rightarrow> FlagError
                            | v # rest \<Rightarrow> parseFlags parseInt s h v t rest))
                else if name = ''t''
                then (if hasValue
                      then (case parseInt val of
                              None \<Rightarrow> FlagError
                            | Some n \<Rightarrow> parseFlags parseInt s h p n args)
                      else (case args of
                              [] \<Rightarrow> FlagError
                            | v # rest \<Rightarrow>
                                (case parseInt v of
                                   None \<Rightarrow> FlagError
                                 | Some n \<Rightarrow> parseFlags parseInt s h p n rest)))
                else if name = ''help'' then ErrHelp
                else FlagError)"

text \<open>main from its first statement. The flag set is \<^verbatim>\<open>flag.CommandLine\<close>, which
  handles an error by \<^verbatim>\<open>flag.ExitOnError\<close>: \<^verbatim>\<open>flag.Parse\<close> writes the error and the
  usage to standard error and ends the process, with status 0 after \<^verbatim>\<open>flag.ErrHelp\<close>
  and with status 2 after any other error; nothing is on standard output then. The
  defaults are those of the declarations: no flag, the path \<^verbatim>\<open>.\<close> and 30 minutes.\<close>

definition mainArgs ::
  "(string \<Rightarrow> 64 word option) \<Rightarrow> os_env \<Rightarrow> string list \<Rightarrow> string recv list \<Rightarrow> proc" where
  "mainArgs parseInt env argv evs =
     (case parseFlags parseInt False False ''.'' 30 argv of
        FlagError \<Rightarrow> Exit 2 []
      | ErrHelp \<Rightarrow> Exit 0 []
      | Parsed config args \<Rightarrow> main env config args evs)"

text \<open>A run in which the context never fires, the jobs are taken in the order the
  walker sends them and the results are printed in the order they are sent: the walker
  sends every job, the pool checks every job, main prints every result and sees the
  channel closed. It is one of the complete runs defined next, and every complete run
  prints the same lines in some order.\<close>

definition lfinder :: "os_env \<Rightarrow> error + node \<Rightarrow> Config \<Rightarrow> string list \<Rightarrow> proc" where
  "lfinder env tree config args =
     (case setup_main env config args of
        Abort status out \<Rightarrow> Exit status out
      | Ready targetPath targetInode out \<Rightarrow>
         (case walker env config (\<lambda>path again. (None, None)) tree of
            (jobs, printed) \<Rightarrow>
              drain
                (map Got (worker env config targetPath targetInode
                            (map (\<lambda>path. Got (path, None, None)) jobs @ [Closed]))
                   @ [Closed])
                (out @ printed)))"

text \<open>A complete run with the eight workers of main. \<open>taker\<close> names, for each job in the
  order the walker sends them, the worker (0 to 7) that receives it; a worker checks its
  jobs in that order. \<open>order\<close> names, for each result main receives, the worker that
  sent it: \<open>interleave\<close> merges what the workers send in that order, and is \<open>None\<close>
  when \<open>order\<close> asks a worker for more than it sends or leaves a result unreceived. The
  context never fires, so every \<^verbatim>\<open>select\<close> takes its channel arm.\<close>

definition numWorkers :: nat where
  "numWorkers = 8"

definition jobsOf :: "nat \<Rightarrow> string list \<Rightarrow> nat list \<Rightarrow> string list" where
  "jobsOf w jobs taker = map fst (filter (\<lambda>(job, t). t = w) (zip jobs taker))"

fun interleave :: "nat list \<Rightarrow> string list list \<Rightarrow> string list option" where
  "interleave [] sent = (if concat sent = [] then Some [] else None)"
| "interleave (w # order) sent =
     (if w < length sent
      then (case sent ! w of
              [] \<Rightarrow> None
            | r # rs \<Rightarrow> map_option ((#) r) (interleave order (sent[w := rs])))
      else None)"

definition pool ::
  "os_env \<Rightarrow> Config \<Rightarrow> string \<Rightarrow> 64 word \<Rightarrow> string list \<Rightarrow> nat list \<Rightarrow> nat list
     \<Rightarrow> string list option" where
  "pool env config target targetInode jobs taker order =
     (if length taker = length jobs \<and> list_all (\<lambda>t. t < numWorkers) taker
      then interleave order
             (map (\<lambda>w. worker env config target targetInode
                          (map (\<lambda>path. Got (path, None, None)) (jobsOf w jobs taker)
                             @ [Closed]))
                  [0..<numWorkers])
      else None)"

definition run ::
  "os_env \<Rightarrow> error + node \<Rightarrow> Config \<Rightarrow> string list \<Rightarrow> nat list \<Rightarrow> nat list \<Rightarrow> proc option" where
  "run env tree config args taker order =
     (case setup_main env config args of
        Abort status out \<Rightarrow> Some (Exit status out)
      | Ready targetPath targetInode out \<Rightarrow>
         (case walker env config (\<lambda>path again. (None, None)) tree of
            (jobs, printed) \<Rightarrow>
              (case pool env config targetPath targetInode jobs taker order of
                 None \<Rightarrow> None
               | Some results \<Rightarrow>
                   Some (drain (map Got results @ [Closed]) (out @ printed)))))"

section \<open>A Unix file system\<close>

text \<open>One environment, for the examples: a file tree with a working directory, and on
  it the calls of Go's \<^verbatim>\<open>os\<close> and \<^verbatim>\<open>path/filepath\<close> on Unix. A path is split at
  its slashes; \<^verbatim>\<open>filepath.Clean\<close> drops empty and \<^verbatim>\<open>.\<close> elements and resolves
  \<^verbatim>\<open>..\<close> lexically; \<^verbatim>\<open>filepath.Join\<close> cleans the elements joined by a slash;
  \<^verbatim>\<open>filepath.Abs\<close> joins a relative path to the working directory. \<open>namei\<close> is the
  kernel's path resolution (at most 40 links are followed; the last element is followed
  for \<^verbatim>\<open>stat\<close> and not for \<^verbatim>\<open>lstat\<close> and \<^verbatim>\<open>readlink\<close>); \<open>walkSymlinks\<close> is the
  loop of \<^verbatim>\<open>filepath.EvalSymlinks\<close>, which replaces each link by its text, gives up
  after 255 links and cleans the result. Regular files have mode 0644, directories 0755
  and links 0777.\<close>

fun splitSlash :: "string \<Rightarrow> string list" where
  "splitSlash [] = [[]]"
| "splitSlash (c # cs) =
     (case splitSlash cs of
        [] \<Rightarrow> if c = CHR ''/'' then [[], []] else [[c]]
      | w # ws \<Rightarrow> if c = CHR ''/'' then [] # w # ws else (c # w) # ws)"

fun joinSlash :: "string list \<Rightarrow> string" where
  "joinSlash [] = []"
| "joinSlash [x] = x"
| "joinSlash (x # y # ys) = x @ ''/'' @ joinSlash (y # ys)"

definition unixIsAbs :: "string \<Rightarrow> bool" where
  "unixIsAbs p \<longleftrightarrow> (case p of [] \<Rightarrow> False | c # cs \<Rightarrow> c = CHR ''/'')"

definition cleanStep :: "bool \<Rightarrow> string list \<Rightarrow> string \<Rightarrow> string list" where
  "cleanStep rooted out c =
     (if c = [] \<or> c = ''.'' then out
      else if c = ''..''
      then (if out \<noteq> [] \<and> last out \<noteq> ''..'' then butlast out
            else if rooted then out else out @ [''..''])
      else out @ [c])"

definition Clean :: "string \<Rightarrow> string" where
  "Clean p =
     (let out = foldl (cleanStep (unixIsAbs p)) [] (splitSlash p)
      in if unixIsAbs p then ''/'' @ joinSlash out
         else if out = [] then ''.'' else joinSlash out)"

definition unixJoin :: "string \<Rightarrow> string \<Rightarrow> string" where
  "unixJoin a b =
     (if a = [] \<and> b = [] then []
      else if a = [] then Clean b
      else if b = [] then Clean a
      else Clean (a @ ''/'' @ b))"

definition unixAbs :: "string \<Rightarrow> string \<Rightarrow> error + string" where
  "unixAbs cwd p = (if unixIsAbs p then Inr (Clean p) else Inr (unixJoin cwd p))"

fun lookup :: "node \<Rightarrow> string list \<Rightarrow> node option" where
  "lookup n [] = Some n"
| "lookup (Dir ino readErr entries) (c # cs) =
     (case map_of entries c of None \<Rightarrow> None | Some n \<Rightarrow> lookup n cs)"
| "lookup (File ino) (c # cs) = None"
| "lookup (Symlink ino link) (c # cs) = None"

definition ENOENT :: error where "ENOENT = OsError ''no such file or directory''"
definition ENOTDIR :: error where "ENOTDIR = OsError ''not a directory''"
definition ELOOP :: error where "ELOOP = OsError ''too many levels of symbolic links''"
definition EINVAL :: error where "EINVAL = OsError ''invalid argument''"

fun namei ::
  "nat \<Rightarrow> node \<Rightarrow> bool \<Rightarrow> string list \<Rightarrow> string list \<Rightarrow> error + node" where
  "namei k root follow cur [] =
     (case lookup root cur of None \<Rightarrow> Inl ENOENT | Some n \<Rightarrow> Inr n)"
| "namei k root follow cur (c # cs) =
     (if c = [] \<or> c = ''.'' then namei k root follow cur cs
      else if c = ''..'' then namei k root follow (butlast cur) cs
      else case lookup root (cur @ [c]) of
             None \<Rightarrow> Inl ENOENT
           | Some (Dir ino readErr entries) \<Rightarrow> namei k root follow (cur @ [c]) cs
           | Some (File ino) \<Rightarrow> if cs = [] then Inr (File ino) else Inl ENOTDIR
           | Some (Symlink ino link) \<Rightarrow>
               if cs = [] \<and> \<not> follow then Inr (Symlink ino link)
               else (case k of
                       0 \<Rightarrow> Inl ELOOP
                     | Suc k' \<Rightarrow>
                         namei k' root follow (if unixIsAbs link then [] else cur)
                           (splitSlash link @ cs)))"

definition infoOf :: "node \<Rightarrow> FileInfo" where
  "infoOf n =
     (case n of
        File ino \<Rightarrow> \<lparr>Mode = 0x1A4, Sys = Stat_t ino\<rparr>
      | Symlink ino link \<Rightarrow> \<lparr>Mode = ModeSymlink OR 0x1FF, Sys = Stat_t ino\<rparr>
      | Dir ino readErr entries \<Rightarrow> \<lparr>Mode = ModeDir OR 0x1ED, Sys = Stat_t ino\<rparr>)"

definition fsNode :: "node \<Rightarrow> string \<Rightarrow> bool \<Rightarrow> string \<Rightarrow> error + node" where
  "fsNode root cwd follow p =
     (if p = [] then Inl ENOENT
      else namei 40 root follow
             (if unixIsAbs p then [] else filter (\<lambda>c. c \<noteq> []) (splitSlash cwd))
             (splitSlash p))"

text \<open>The canonical path of a path, as \<^verbatim>\<open>realpath(3)\<close> gives it: the absolute path
  of the file the kernel's resolution arrives at, with every symbolic link on the way
  resolved, those of the working directory as well, and no \<^verbatim>\<open>.\<close>, \<^verbatim>\<open>..\<close> or empty
  element left. \<open>realpath\<close> is the resolution of \<open>namei\<close> with the last element
  followed; it returns the place instead of the node.\<close>

fun realpath ::
  "nat \<Rightarrow> node \<Rightarrow> string list \<Rightarrow> string list \<Rightarrow> error + string list" where
  "realpath k root cur [] =
     (case lookup root cur of None \<Rightarrow> Inl ENOENT | Some n \<Rightarrow> Inr cur)"
| "realpath k root cur (c # cs) =
     (if c = [] \<or> c = ''.'' then realpath k root cur cs
      else if c = ''..'' then realpath k root (butlast cur) cs
      else case lookup root (cur @ [c]) of
             None \<Rightarrow> Inl ENOENT
           | Some (Dir ino readErr entries) \<Rightarrow> realpath k root (cur @ [c]) cs
           | Some (File ino) \<Rightarrow> if cs = [] then Inr (cur @ [c]) else Inl ENOTDIR
           | Some (Symlink ino link) \<Rightarrow>
               (case k of
                  0 \<Rightarrow> Inl ELOOP
                | Suc k' \<Rightarrow>
                    realpath k' root (if unixIsAbs link then [] else cur)
                      (splitSlash link @ cs)))"

definition fsRealpath :: "node \<Rightarrow> string \<Rightarrow> string \<Rightarrow> error + string" where
  "fsRealpath root cwd p =
     (if p = [] then Inl ENOENT
      else map_sum id (\<lambda>place. ''/'' @ joinSlash place)
             (realpath 40 root []
                ((if unixIsAbs p then [] else splitSlash cwd) @ splitSlash p)))"

text \<open>An error of \<^verbatim>\<open>os.Lstat\<close>, \<^verbatim>\<open>os.Stat\<close> and \<^verbatim>\<open>os.Readlink\<close> is a
  \<^verbatim>\<open>*fs.PathError\<close>: its text is the operation, the path, a colon and the text of the
  system's error.\<close>

definition PathError :: "string \<Rightarrow> string \<Rightarrow> error \<Rightarrow> error" where
  "PathError op p err = OsError (op @ '' '' @ p @ '': '' @ error_string err)"

definition fsLstat :: "node \<Rightarrow> string \<Rightarrow> string \<Rightarrow> error + FileInfo" where
  "fsLstat root cwd p = map_sum (PathError ''lstat'' p) infoOf (fsNode root cwd False p)"

definition fsStat :: "node \<Rightarrow> string \<Rightarrow> string \<Rightarrow> error + FileInfo" where
  "fsStat root cwd p = map_sum (PathError ''stat'' p) infoOf (fsNode root cwd True p)"

definition fsReadlink :: "node \<Rightarrow> string \<Rightarrow> string \<Rightarrow> error + string" where
  "fsReadlink root cwd p =
     (case fsNode root cwd False p of
        Inl err \<Rightarrow> Inl (PathError ''readlink'' p err)
      | Inr (Symlink ino link) \<Rightarrow> Inr link
      | Inr (File ino) \<Rightarrow> Inl (PathError ''readlink'' p EINVAL)
      | Inr (Dir ino readErr entries) \<Rightarrow> Inl (PathError ''readlink'' p EINVAL))"

definition destString :: "bool \<Rightarrow> string list \<Rightarrow> string" where
  "destString rooted dest = (if rooted then ''/'' else []) @ joinSlash dest"

fun walkSymlinks ::
  "nat \<Rightarrow> node \<Rightarrow> string \<Rightarrow> bool \<Rightarrow> string list \<Rightarrow> string list \<Rightarrow> error + string" where
  "walkSymlinks k root cwd rooted dest [] = Inr (Clean (destString rooted dest))"
| "walkSymlinks k root cwd rooted dest (c # cs) =
     (if c = [] \<or> c = ''.'' then walkSymlinks k root cwd rooted dest cs
      else if c = ''..''
      then walkSymlinks k root cwd rooted
             (if length dest \<le> 1 \<or> last dest = ''..'' then dest @ [''..''] else butlast dest) cs
      else case fsLstat root cwd (destString rooted (dest @ [c])) of
             Inl err \<Rightarrow> Inl err
           | Inr fi \<Rightarrow>
               if Mode fi AND ModeSymlink = 0
               then (if \<not> IsDir (Mode fi) \<and> cs \<noteq> [] then Inl ENOTDIR
                     else walkSymlinks k root cwd rooted (dest @ [c]) cs)
               else (case k of
                       0 \<Rightarrow> Inl (OsError ''EvalSymlinks: too many links'')
                     | Suc k' \<Rightarrow>
                        (case fsReadlink root cwd (destString rooted (dest @ [c])) of
                           Inl err \<Rightarrow> Inl err
                         | Inr link \<Rightarrow>
                             if unixIsAbs link
                             then walkSymlinks k' root cwd True [] (splitSlash link @ cs)
                             else walkSymlinks k' root cwd rooted dest (splitSlash link @ cs))))"

definition fsEvalSymlinks :: "node \<Rightarrow> string \<Rightarrow> string \<Rightarrow> error + string" where
  "fsEvalSymlinks root cwd p = walkSymlinks 255 root cwd (unixIsAbs p) [] (splitSlash p)"

definition unix_env :: "node \<Rightarrow> string \<Rightarrow> os_env" where
  "unix_env root cwd =
     \<lparr>GOOS = ''linux'',
      Lstat = fsLstat root cwd,
      Stat = fsStat root cwd,
      Readlink = fsReadlink root cwd,
      EvalSymlinks = fsEvalSymlinks root cwd,
      Abs = unixAbs cwd,
      IsAbs = unixIsAbs,
      Join = unixJoin\<rparr>"

text \<open>\<^verbatim>\<open>strconv.ParseInt\<close> at the values the examples give to \<^verbatim>\<open>-t\<close>: the
  numbers 5 and 30, and \<^verbatim>\<open>abc\<close>, which is no number. The examples parse no other
  value.\<close>

definition example_ParseInt :: "string \<Rightarrow> 64 word option" where
  "example_ParseInt v =
     (if v = ''5'' then Some 5 else if v = ''30'' then Some 30 else None)"

text \<open>The tree \<^verbatim>\<open>root/{a.txt, link_to_a -> a.txt, sub/hard_a, sub/other.txt}\<close> in
  the directory \<^verbatim>\<open>/work\<close>; \<^verbatim>\<open>sub/hard_a\<close> is a hard link of \<^verbatim>\<open>a.txt\<close> (inode 100).\<close>

definition example_root :: node where
  "example_root =
     Dir 2 None
       [(''work'', Dir 10 None
          [(''root'', Dir 11 None
             [(''a.txt'', File 100),
              (''link_to_a'', Symlink 101 ''a.txt''),
              (''sub'', Dir 12 None
                 [(''hard_a'', File 100),
                  (''other.txt'', File 102)])])])]"

definition example_env :: os_env where
  "example_env = unix_env example_root ''/work''"

text \<open>The same tree under \<^verbatim>\<open>/work\<close>, with a hard link of \<^verbatim>\<open>a.txt\<close> and a symbolic
  link to it planted under \<^verbatim>\<open>/proc\<close>.\<close>

definition planted_root :: node where
  "planted_root =
     Dir 2 None
       [(''proc'', Dir 3 None [(''planted'', File 100), (''link'', Symlink 7 ''/work/root/a.txt'')]),
        (''work'', Dir 10 None
          [(''root'', Dir 11 None
             [(''a.txt'', File 100),
              (''link_to_a'', Symlink 101 ''a.txt''),
              (''sub'', Dir 12 None
                 [(''hard_a'', File 100),
                  (''other.txt'', File 102)])])])]"

text \<open>A tree with an absolute and a relative link to \<^verbatim>\<open>a.txt\<close>, and a link \<^verbatim>\<open>t\<close>
  to it that serves as a target given through a link.\<close>

definition linked_root :: node where
  "linked_root =
     Dir 2 None
       [(''work'', Dir 10 None
          [(''root'', Dir 11 None
             [(''a.txt'', File 100),
              (''abs'', Symlink 103 ''/work/root/a.txt''),
              (''rel'', Symlink 104 ''./sub/../a.txt''),
              (''sub'', Dir 12 None []),
              (''t'', Symlink 105 ''a.txt'')])])]"

definition linked_env :: os_env where
  "linked_env = unix_env linked_root ''/work''"

section \<open>Properties\<close>

subsection \<open>The type bits of a mode\<close>

lemma ModeDir_in_ModeType: "ModeDir AND ModeType = ModeDir"
  by (simp add: ModeDir_def ModeType_def ModeSymlink_def ModeNamedPipe_def ModeSocket_def
      ModeDevice_def ModeCharDevice_def ModeIrregular_def)

lemma IsRegular_not_IsDir: "IsRegular m \<Longrightarrow> \<not> IsDir m"
proof -
  assume r: "IsRegular m"
  have "m AND ModeDir = m AND (ModeType AND ModeDir)"
    using ModeDir_in_ModeType by (simp add: and.commute)
  also have "\<dots> = (m AND ModeType) AND ModeDir"
    by (simp add: and.assoc)
  also have "\<dots> = 0"
    using r by (simp add: IsRegular_def)
  finally show ?thesis by (simp add: IsDir_def)
qed

lemma ModeSymlink_in_ModeType: "ModeSymlink AND ModeType = ModeSymlink"
  by (simp add: ModeDir_def ModeType_def ModeSymlink_def ModeNamedPipe_def ModeSocket_def
      ModeDevice_def ModeCharDevice_def ModeIrregular_def)

lemma IsRegular_not_symlink: "IsRegular m \<Longrightarrow> m AND ModeSymlink = 0"
proof -
  assume r: "IsRegular m"
  have "m AND ModeSymlink = m AND (ModeType AND ModeSymlink)"
    using ModeSymlink_in_ModeType by (simp add: and.commute)
  also have "\<dots> = (m AND ModeType) AND ModeSymlink"
    by (simp add: and.assoc)
  also have "\<dots> = 0"
    using r by (simp add: IsRegular_def)
  finally show ?thesis .
qed

subsection \<open>getInode\<close>

text \<open>On the metadata of \<^verbatim>\<open>os.Stat\<close> and \<^verbatim>\<open>os.Lstat\<close> every failure of
  \<^verbatim>\<open>getInode\<close> is one of its two errors, and the general function returns what
  \<open>getInode\<close> returns. On any \<^verbatim>\<open>fs.FileInfo\<close> the function returns or panics, and
  it panics exactly on a nil \<^verbatim>\<open>*syscall.Stat_t\<close> off Windows.\<close>

lemma getInode_cases:
  "(GOOS env = ''windows'' \<longrightarrow>
      getInode env info = Inl (Errorf ''hard links detection not supported on Windows''))
   \<and> (GOOS env \<noteq> ''windows'' \<and> Sys info = OtherSys \<longrightarrow>
      getInode env info = Inl (Errorf ''unable to get system file info''))
   \<and> (GOOS env \<noteq> ''windows'' \<and> Sys info = Stat_t ino \<longrightarrow> getInode env info = Inr ino)"
  by (simp add: getInode_def)

lemma getInodeAny_getInode:
  "getInodeAny env (sysValue (Sys info)) = Returns (getInode env info)"
  by (cases "Sys info") (simp_all add: getInodeAny_def getInode_def)

lemma getInodeAny_cases:
  "(GOOS env = ''windows'' \<longrightarrow>
      getInodeAny env sys
        = Returns (Inl (Errorf ''hard links detection not supported on Windows'')))
   \<and> (GOOS env \<noteq> ''windows'' \<longrightarrow>
        getInodeAny env Other_value = Returns (Inl (Errorf ''unable to get system file info''))
        \<and> getInodeAny env (Stat_t_ptr (Some ino)) = Returns (Inr ino)
        \<and> getInodeAny env (Stat_t_ptr None) = Panic)"
  by (simp add: getInodeAny_def)

lemma getInodeAny_Panic:
  "getInodeAny env sys = Panic \<longleftrightarrow> GOOS env \<noteq> ''windows'' \<and> sys = Stat_t_ptr None"
  by (auto simp: getInodeAny_def split: sys_value.splits option.splits)


subsection \<open>The worker\<close>

lemma workerStep_both_flags:
  "workerStep env (config\<lparr>SymlinksOnly := True, HardlinksOnly := True\<rparr>) target targetInode
     entry send path
   = workerStep env (config\<lparr>SymlinksOnly := False, HardlinksOnly := False\<rparr>) target
       targetInode entry send path"
  by (auto simp: workerStep_def split: sum.splits dest: IsRegular_not_IsDir)

lemma worker_both_flags:
  "worker env (config\<lparr>SymlinksOnly := True, HardlinksOnly := True\<rparr>) target targetInode evs
   = worker env (config\<lparr>SymlinksOnly := False, HardlinksOnly := False\<rparr>) target
       targetInode evs"
proof (induction evs)
  case Nil
  then show ?case by simp
next
  case (Cons ev evs)
  then show ?case
    by (cases ev) (auto simp: workerStep_both_flags)
qed

lemma workerStep_directory:
  "Lstat env path = Inr fileInfo \<Longrightarrow> IsDir (Mode fileInfo) \<Longrightarrow>
   Mode fileInfo AND ModeSymlink = 0 \<Longrightarrow>
   workerStep env config target targetInode entry send path = []"
  by (auto simp: workerStep_def dest: IsRegular_not_IsDir)

lemma workerStep_result_kind:
  "workerStep env config target targetInode entry send path \<noteq> [] \<Longrightarrow>
   \<exists>fileInfo. Lstat env path = Inr fileInfo
     \<and> (Mode fileInfo AND ModeSymlink \<noteq> 0 \<or> IsRegular (Mode fileInfo))"
  by (auto simp: workerStep_def split: sum.splits if_splits)

text \<open>
  Claim C10. For every candidate path that is a directory, no match result is ever
  produced: the worker applies the symlink check only to entries whose mode has the
  symlink bit set and the hardlink check only to regular files, so directories pass
  through the job queue without generating any output.

  A directory is a path for which \<^verbatim>\<open>os.Lstat\<close> returns a mode with \<^verbatim>\<open>ModeDir\<close> set
  and \<^verbatim>\<open>ModeSymlink\<close> clear. A worker that receives only directories sends nothing, in
  every mode and whatever its \<^verbatim>\<open>select\<close>s see.
\<close>

theorem directory_no_result:
  assumes "\<And>path entry send. Got (path, entry, send) \<in> set evs \<Longrightarrow>
             \<exists>fileInfo. Lstat env path = Inr fileInfo \<and> IsDir (Mode fileInfo)
               \<and> Mode fileInfo AND ModeSymlink = 0"
  shows "worker env config target targetInode evs = []"
  using assms
proof (induction evs)
  case Nil
  then show ?case by simp
next
  case (Cons ev evs)
  show ?case
  proof (cases ev)
    case (Done e)
    then show ?thesis by simp
  next
    case Closed
    then show ?thesis by simp
  next
    case (Got job)
    obtain path entry send where job: "job = (path, entry, send)"
      by (cases job) auto
    from Cons.prems [of path entry send] Got job
    obtain fileInfo where "Lstat env path = Inr fileInfo" "IsDir (Mode fileInfo)"
      "Mode fileInfo AND ModeSymlink = 0"
      by auto
    then have "workerStep env config target targetInode entry send path = []"
      by (rule workerStep_directory)
    moreover have "worker env config target targetInode evs = []"
      by (rule Cons.IH) (use Cons.prems in auto)
    ultimately show ?thesis
      using Got job by simp
  qed
qed

theorem directory_no_result_witness:
  "worker example_env (mkConfig False False ''root'' 30) ''root/a.txt'' 100
     [Got (''root'', None, None), Got (''root/sub'', None, None), Closed] = []"
proof -
  have d1: "Lstat example_env ''root'' = Inr \<lparr>Mode = ModeDir OR 0x1ED, Sys = Stat_t 11\<rparr>"
    by code_simp
  have d2: "Lstat example_env ''root/sub'' = Inr \<lparr>Mode = ModeDir OR 0x1ED, Sys = Stat_t 12\<rparr>"
    by code_simp
  have m: "IsDir (ModeDir OR 0x1ED)" "(ModeDir OR 0x1ED) AND ModeSymlink = 0"
    by (simp_all add: IsDir_def ModeDir_def ModeSymlink_def)
  show ?thesis
    by (rule directory_no_result) (use d1 d2 m in auto)
qed

text \<open>
  Claim C9. If a candidate symlink resolves to the target's canonical path but the
  subsequent read of its literal link text fails, the match is silently dropped: no output
  line at all is produced for that candidate.

  The check returns the error of \<^verbatim>\<open>os.Readlink\<close> and sends nothing; the worker drops
  the error, so nothing reaches the \<^verbatim>\<open>results\<close> channel for the candidate.
\<close>

theorem readlink_failure_drops_match:
  assumes "Lstat env path = Inr fileInfo" and "Mode fileInfo AND ModeSymlink \<noteq> 0"
    and "EvalSymlinks env path = Inr resolved" and "Abs env target = Inr canonical"
    and "Abs env resolved = Inr canonical" and "Readlink env path = Inl err"
  shows "checkAndSendSymlink env None send path target = (Some err, [])
    \<and> snd (checkAndSendSymlink env entry send path target) = []
    \<and> workerStep env config target targetInode entry send path = []"
proof -
  have a: "checkAndSendSymlink env None send path target = (Some err, [])"
    using assms by (simp add: checkAndSendSymlink_def)
  have b: "snd (checkAndSendSymlink env entry send path target) = []"
    using assms by (cases entry) (simp_all add: checkAndSendSymlink_def)
  have "\<not> IsRegular (Mode fileInfo)"
    using assms(2) IsRegular_not_symlink by blast
  then have "workerStep env config target targetInode entry send path = []"
    using assms(1,2) b by (simp add: workerStep_def)
  with a b show ?thesis by simp
qed

theorem readlink_failure_drops_match_witness:
  "checkAndSendSymlink (example_env\<lparr>Readlink := \<lambda>p. Inl ENOENT\<rparr>) None None
      ''root/link_to_a'' ''root/a.txt'' = (Some ENOENT, [])
   \<and> snd (checkAndSendSymlink (example_env\<lparr>Readlink := \<lambda>p. Inl ENOENT\<rparr>) None None
      ''root/link_to_a'' ''root/a.txt'') = []
   \<and> workerStep (example_env\<lparr>Readlink := \<lambda>p. Inl ENOENT\<rparr>)
        (mkConfig False False ''root'' 30) ''root/a.txt'' 100 None None ''root/link_to_a'' = []"
proof -
  let ?env = "example_env\<lparr>Readlink := \<lambda>p. Inl ENOENT\<rparr>"
  have l: "Lstat ?env ''root/link_to_a'' = Inr \<lparr>Mode = ModeSymlink OR 0x1FF, Sys = Stat_t 101\<rparr>"
    by code_simp
  have m: "Mode \<lparr>Mode = ModeSymlink OR 0x1FF, Sys = Stat_t 101\<rparr> AND ModeSymlink \<noteq> 0"
    by (simp add: ModeSymlink_def)
  have e: "EvalSymlinks ?env ''root/link_to_a'' = Inr ''root/a.txt''"
    by code_simp
  have a: "Abs ?env ''root/a.txt'' = Inr ''/work/root/a.txt''"
    by code_simp
  have r: "Readlink ?env ''root/link_to_a'' = Inl ENOENT"
    by (simp add: example_env_def unix_env_def)
  show ?thesis
    by (rule readlink_failure_drops_match [OF l m e a a r])
qed

lemma setup_main_both_flags:
  assumes "setup_main env (config\<lparr>SymlinksOnly := False, HardlinksOnly := False\<rparr>) args
             = Ready targetPath targetInode []"
  shows "setup_main env (config\<lparr>SymlinksOnly := True, HardlinksOnly := True\<rparr>) args
             = Ready targetPath targetInode []"
  using assms
  by (auto simp: setup_main_def targetPathOf_def Let_def split: if_splits sum.splits)

text \<open>
  Claim C8. If both the symlinks-only and hardlinks-only flags are set simultaneously,
  the worker behaves exactly like the default both mode: every candidate that is a symlink
  receives the symlink check and every regular non-symlink file receives the hardlink
  check; the flag combination is neither rejected nor does it yield an empty result set.

  With both flags a worker sends what it sends with neither, on every sequence of jobs;
  main does not look at the combination, so a set-up that passes with neither flag passes
  with both.
\<close>

theorem both_flags_as_default:
  "worker env (config\<lparr>SymlinksOnly := True, HardlinksOnly := True\<rparr>) target targetInode evs
     = worker env (config\<lparr>SymlinksOnly := False, HardlinksOnly := False\<rparr>) target
         targetInode evs
   \<and> (Lstat env path = Inr fileInfo \<and> Mode fileInfo AND ModeSymlink \<noteq> 0 \<longrightarrow>
        workerStep env (config\<lparr>SymlinksOnly := True, HardlinksOnly := True\<rparr>) target
          targetInode entry send path
        = snd (checkAndSendSymlink env entry send path target))
   \<and> (Lstat env path = Inr fileInfo \<and> Mode fileInfo AND ModeSymlink = 0
        \<and> IsRegular (Mode fileInfo) \<longrightarrow>
        workerStep env (config\<lparr>SymlinksOnly := True, HardlinksOnly := True\<rparr>) target
          targetInode entry send path
        = snd (checkAndSendHardlink env entry send path targetInode fileInfo))
   \<and> (setup_main env (config\<lparr>SymlinksOnly := False, HardlinksOnly := False\<rparr>) args
         = Ready targetPath inode [] \<longrightarrow>
        setup_main env (config\<lparr>SymlinksOnly := True, HardlinksOnly := True\<rparr>) args
         = Ready targetPath inode [])"
proof (intro conjI impI)
  show "worker env (config\<lparr>SymlinksOnly := True, HardlinksOnly := True\<rparr>) target targetInode evs
     = worker env (config\<lparr>SymlinksOnly := False, HardlinksOnly := False\<rparr>) target
         targetInode evs"
    by (rule worker_both_flags)
next
  assume "Lstat env path = Inr fileInfo \<and> Mode fileInfo AND ModeSymlink \<noteq> 0"
  then show "workerStep env (config\<lparr>SymlinksOnly := True, HardlinksOnly := True\<rparr>) target
          targetInode entry send path
        = snd (checkAndSendSymlink env entry send path target)"
    by (simp add: workerStep_def)
next
  assume "Lstat env path = Inr fileInfo \<and> Mode fileInfo AND ModeSymlink = 0
        \<and> IsRegular (Mode fileInfo)"
  then show "workerStep env (config\<lparr>SymlinksOnly := True, HardlinksOnly := True\<rparr>) target
          targetInode entry send path
        = snd (checkAndSendHardlink env entry send path targetInode fileInfo)"
    by (simp add: workerStep_def IsRegular_not_IsDir)
next
  assume "setup_main env (config\<lparr>SymlinksOnly := False, HardlinksOnly := False\<rparr>) args
         = Ready targetPath inode []"
  then show "setup_main env (config\<lparr>SymlinksOnly := True, HardlinksOnly := True\<rparr>) args
         = Ready targetPath inode []"
    by (rule setup_main_both_flags)
qed

theorem both_flags_as_default_witness:
  "worker example_env (mkConfig True True ''root'' 30) ''root/a.txt'' 100
      [Got (''root/link_to_a'', None, None), Got (''root/sub/hard_a'', None, None), Closed]
     = [''root/link_to_a (symlink) -> a.txt'', ''root/sub/hard_a (hardlink)'']
   \<and> workerStep example_env (mkConfig True True ''root'' 30) ''root/a.txt'' 100 None None
       ''root/link_to_a''
     = snd (checkAndSendSymlink example_env None None ''root/link_to_a'' ''root/a.txt'')
   \<and> workerStep example_env (mkConfig True True ''root'' 30) ''root/a.txt'' 100 None None
       ''root/sub/hard_a''
     = snd (checkAndSendHardlink example_env None None ''root/sub/hard_a'' 100
              \<lparr>Mode = 0x1A4, Sys = Stat_t 100\<rparr>)
   \<and> setup_main example_env (mkConfig True True ''root'' 30) [''a.txt'']
     = Ready ''root/a.txt'' 100 []"
proof -
  let ?evs = "[Got (''root/link_to_a'', None, None), Got (''root/sub/hard_a'', None, None),
               Closed]"
  let ?d = "mkConfig False False ''root'' 30"
  let ?link = "\<lparr>Mode = ModeSymlink OR 0x1FF, Sys = Stat_t 101\<rparr>"
  let ?file = "\<lparr>Mode = 0x1A4, Sys = Stat_t 100\<rparr>"
  have c: "?d\<lparr>SymlinksOnly := True, HardlinksOnly := True\<rparr> = mkConfig True True ''root'' 30"
          "?d\<lparr>SymlinksOnly := False, HardlinksOnly := False\<rparr> = ?d"
    by (simp_all add: mkConfig_def)
  have w: "worker example_env ?d ''root/a.txt'' 100 ?evs
             = [''root/link_to_a (symlink) -> a.txt'', ''root/sub/hard_a (hardlink)'']"
    by code_simp
  have s: "setup_main example_env ?d [''a.txt''] = Ready ''root/a.txt'' 100 []"
    by code_simp
  have l: "Lstat example_env ''root/link_to_a'' = Inr ?link"
    by code_simp
  have lm: "Mode ?link AND ModeSymlink \<noteq> 0"
    by (simp add: ModeSymlink_def)
  have f: "Lstat example_env ''root/sub/hard_a'' = Inr ?file"
    by code_simp
  have fm: "Mode ?file AND ModeSymlink = 0" "IsRegular (Mode ?file)"
    by (simp_all add: ModeSymlink_def IsRegular_def ModeType_def ModeDir_def ModeNamedPipe_def
        ModeSocket_def ModeDevice_def ModeCharDevice_def ModeIrregular_def)
  note t1 = both_flags_as_default [of example_env ?d "''root/a.txt''" 100 ?evs
      "''root/link_to_a''" ?link None None "[''a.txt'']" "''root/a.txt''" 100, unfolded c]
  note t2 = both_flags_as_default [of example_env ?d "''root/a.txt''" 100 ?evs
      "''root/sub/hard_a''" ?file None None "[''a.txt'']" "''root/a.txt''" 100, unfolded c]
  have 1: "worker example_env (mkConfig True True ''root'' 30) ''root/a.txt'' 100 ?evs
     = [''root/link_to_a (symlink) -> a.txt'', ''root/sub/hard_a (hardlink)'']"
    using t1 [THEN conjunct1] w by simp
  have 2: "workerStep example_env (mkConfig True True ''root'' 30) ''root/a.txt'' 100 None None
       ''root/link_to_a''
     = snd (checkAndSendSymlink example_env None None ''root/link_to_a'' ''root/a.txt'')"
    by (rule t1 [THEN conjunct2, THEN conjunct1, THEN mp]) (use l lm in simp)
  have 3: "workerStep example_env (mkConfig True True ''root'' 30) ''root/a.txt'' 100 None None
       ''root/sub/hard_a''
     = snd (checkAndSendHardlink example_env None None ''root/sub/hard_a'' 100 ?file)"
    by (rule t2 [THEN conjunct2, THEN conjunct2, THEN conjunct1, THEN mp]) (use f fm in simp)
  have 4: "setup_main example_env (mkConfig True True ''root'' 30) [''a.txt'']
     = Ready ''root/a.txt'' 100 []"
    by (rule t1 [THEN conjunct2, THEN conjunct2, THEN conjunct2, THEN mp]) (rule s)
  from 1 2 3 4 show ?thesis by (intro conjI)
qed

subsection \<open>The walker\<close>

lemma shouldSkipDir_iff: "shouldSkipDir path skipDirs \<longleftrightarrow> path \<in> set skipDirs"
  by (induction skipDirs) auto

lemma walkFn_skip:
  "shouldSkipDir path (SkipDirs config) \<Longrightarrow>
   snd (walkFn config entry send path True err) = []"
  by (auto simp: walkFn_def split: option.splits)

lemma walkFn_skip_cases:
  "shouldSkipDir path (SkipDirs config) \<Longrightarrow>
   walkFn config entry send path True None
     = (case entry of Some e \<Rightarrow> (Some (CtxError e), []) | None \<Rightarrow> (Some SkipDir, []))"
  by (auto simp: walkFn_def split: option.splits)

lemma walkDir_skip:
  "shouldSkipDir path (SkipDirs config) \<Longrightarrow>
   walkDir env config sched path (Dir ino readErr entries)
     = (case fst (sched path False) of Some e \<Rightarrow> (Some (CtxError e), []) | None \<Rightarrow> (None, []))"
  by (simp add: walkFn_skip_cases split: option.splits)

lemma walk_prune:
  "walkDir env config sched path n = walkDir env config sched path (prune env config path n)"
  "walkEntries env config sched path entries
     = walkEntries env config sched path (pruneEntries env config path entries)"
proof (induction env config sched path n and env config sched path entries
    rule: walkDir_walkEntries.induct)
  case (1 env config sched path ino)
  then show ?case by simp
next
  case (2 env config sched path ino link)
  then show ?case by simp
next
  case (3 env config sched path ino readErr entries)
  show ?case
  proof (cases "shouldSkipDir path (SkipDirs config)")
    case True
    then show ?thesis
      by (simp only: prune.simps if_True walkDir_skip)
  next
    case False
    then show ?thesis
      using 3 by (auto split: prod.splits option.splits)
  qed
next
  case (4 env config sched path)
  then show ?case by simp
next
  case (5 env config sched path name n rest)
  then show ?case
    by (auto split: prod.splits option.splits)
qed

lemma walker_prune:
  "walker env config sched tree
     = walker env config sched (map_sum id (prune env config (SearchPath config)) tree)"
proof (cases tree)
  case (Inl err)
  then show ?thesis by simp
next
  case (Inr n)
  then show ?thesis
    using walk_prune(1) [of env config sched "SearchPath config" n]
    by (simp add: walker_def WalkDir_def)
qed

text \<open>The callback returns nil, \<^verbatim>\<open>fs.SkipDir\<close> or the error of the context, so
  \<^verbatim>\<open>filepath.WalkDir\<close> returns nil or the error of the context, and the walker never
  prints: every line of the output is printed by main.\<close>

lemma walkFn_error:
  "fst (walkFn config entry send path isDir err) = Some e \<Longrightarrow>
   (\<exists>c. e = CtxError c) \<or> (isDir \<and> e = SkipDir)"
  by (auto simp: walkFn_def split: option.splits if_splits)

lemma walk_error:
  "fst (walkDir env config sched path n) = Some e \<Longrightarrow> \<exists>c. e = CtxError c"
  "fst (walkEntries env config sched path entries) = Some e \<Longrightarrow> \<exists>c. e = CtxError c"
proof (induction env config sched path n and env config sched path entries
    arbitrary: e and e rule: walkDir_walkEntries.induct)
  case (1 env config sched path ino)
  then show ?case using walkFn_error by fastforce
next
  case (2 env config sched path ino link)
  then show ?case using walkFn_error by fastforce
next
  case (3 env config sched path ino readErr entries)
  show ?case
  proof (cases "walkFn config (fst (sched path False)) (snd (sched path False)) path True None")
    case (Pair r jobs)
    show ?thesis
    proof (cases r)
      case None
      show ?thesis
      proof (cases readErr)
        case N: None
        with 3 Pair None show ?thesis
          by (auto split: prod.splits)
      next
        case (Some re)
        obtain r2 jobs2 where p2: "walkFn config (fst (sched path True)) (snd (sched path True))
            path True (Some re) = (r2, jobs2)"
          by (cases "walkFn config (fst (sched path True)) (snd (sched path True))
            path True (Some re)") auto
        show ?thesis
        proof (cases r2)
          case N2: None
          with 3 Pair None Some p2 show ?thesis
            by (auto split: prod.splits)
        next
          case S2: (Some err2)
          with walkFn_error [of config "fst (sched path True)" "snd (sched path True)" path True
              "Some re" err2] p2
          have "(\<exists>c. err2 = CtxError c) \<or> err2 = SkipDir" by simp
          with "3.prems" Pair None Some p2 S2 show ?thesis
            by (auto split: if_splits)
        qed
      qed
    next
      case (Some err)
      with walkFn_error [of config "fst (sched path False)" "snd (sched path False)" path True
          None err] Pair
      have "(\<exists>c. err = CtxError c) \<or> err = SkipDir" by simp
      with "3.prems" Pair Some show ?thesis
        by (auto split: if_splits)
    qed
  qed
next
  case (4 env config sched path)
  then show ?case by simp
next
  case (5 env config sched path name n rest)
  show ?case
  proof (cases "walkDir env config sched (Join env path name) n")
    case (Pair r jobs)
    show ?thesis
    proof (cases r)
      case None
      with 5 Pair show ?thesis
        by (auto split: prod.splits)
    next
      case (Some err)
      with "5.IH"(1) [of err] Pair have "\<exists>c. err = CtxError c" by simp
      with "5.prems" Pair Some show ?thesis
        by (auto split: if_splits)
    qed
  qed
qed

lemma walker_prints_nothing: "snd (walker env config sched tree) = []"
proof -
  obtain r jobs where w: "WalkDir env config sched (SearchPath config) tree = (r, jobs)"
    by (cases "WalkDir env config sched (SearchPath config) tree") auto
  have "r = None \<or> (\<exists>c. r = Some (CtxError c))"
  proof (cases tree)
    case (Inl err)
    with w show ?thesis
      by (auto simp: WalkDir_def walkFn_def split: option.splits if_splits)
  next
    case (Inr n)
    obtain r' jobs' where d: "walkDir env config sched (SearchPath config) n = (r', jobs')"
      by (cases "walkDir env config sched (SearchPath config) n") auto
    with walk_error(1) [of env config sched "SearchPath config" n]
    have "r' = None \<or> (\<exists>c. r' = Some (CtxError c))"
      by (cases r') auto
    with w Inr d show ?thesis
      by (auto simp: WalkDir_def split: if_splits)
  qed
  then have "r = None \<or> r = Some (CtxError Canceled) \<or> r = Some (CtxError DeadlineExceeded)"
    by (metis ctx_err.exhaust)
  with w show ?thesis
    by (auto simp: walker_def)
qed

text \<open>
  Claim C5. For every directory whose path exactly matches an entry of the configured skip
  list, the walker prunes the entire subtree without descending into it, so no entry
  located under a skip-directory is ever enqueued as a candidate or reported as a match,
  even if it would otherwise match the target.

  \<open>shouldSkipDir\<close> is membership in the list. The walk of a directory whose path is in
  the list sends no job, whatever the directory holds and whatever the \<^verbatim>\<open>select\<close>s see;
  the walker sends the same jobs on the tree and on the tree with every such directory
  emptied, so a run reports the same matches whatever is planted under one.
\<close>

theorem skip_directories_pruned:
  "shouldSkipDir path skipDirs = (path \<in> set skipDirs)
   \<and> (shouldSkipDir path (SkipDirs config) \<longrightarrow>
        snd (walkDir env config sched path (Dir ino readErr entries)) = [])
   \<and> walker env config sched tree
       = walker env config sched (map_sum id (prune env config (SearchPath config)) tree)
   \<and> lfinder env tree config args
       = lfinder env (map_sum id (prune env config (SearchPath config)) tree) config args
   \<and> run env tree config args taker order
       = run env (map_sum id (prune env config (SearchPath config)) tree) config args taker
           order"
proof (intro conjI impI)
  show "shouldSkipDir path skipDirs = (path \<in> set skipDirs)"
    by (rule shouldSkipDir_iff)
next
  assume "shouldSkipDir path (SkipDirs config)"
  then show "snd (walkDir env config sched path (Dir ino readErr entries)) = []"
    using walkDir_skip [of path config env sched ino readErr entries]
    by (simp split: option.splits del: walkDir.simps)
next
  show w: "walker env config sched tree
       = walker env config sched (map_sum id (prune env config (SearchPath config)) tree)"
    by (rule walker_prune)
next
  show "lfinder env tree config args
       = lfinder env (map_sum id (prune env config (SearchPath config)) tree) config args"
    unfolding lfinder_def
    by (simp only: walker_prune [of env config "\<lambda>path again. (None, None)" tree])
next
  show "run env tree config args taker order
       = run env (map_sum id (prune env config (SearchPath config)) tree) config args taker
           order"
    unfolding run_def
    by (simp only: walker_prune [of env config "\<lambda>path again. (None, None)" tree])
qed

theorem skip_directories_pruned_witness:
  "snd (walkDir (unix_env planted_root ''/'') (mkConfig False False ''/'' 30)
          (\<lambda>path again. (None, None)) ''/proc''
          (Dir 3 None [(''planted'', File 100), (''link'', Symlink 7 ''/work/root/a.txt'')])) = []
   \<and> lfinder (unix_env planted_root ''/'') (Inr planted_root) (mkConfig False False ''/'' 30)
        [''/work/root/a.txt'']
     = Exit 0 [''/work/root/a.txt (hardlink)'', ''/work/root/link_to_a (symlink) -> a.txt'',
               ''/work/root/sub/hard_a (hardlink)'']"
proof -
  let ?env = "unix_env planted_root ''/''"
  let ?config = "mkConfig False False ''/'' 30"
  let ?pruned = "Dir 2 None
       [(''proc'', Dir 3 None []),
        (''work'', Dir 10 None
          [(''root'', Dir 11 None
             [(''a.txt'', File 100),
              (''link_to_a'', Symlink 101 ''a.txt''),
              (''sub'', Dir 12 None
                 [(''hard_a'', File 100),
                  (''other.txt'', File 102)])])])]"
  have s: "shouldSkipDir ''/proc'' (SkipDirs ?config)"
    by (simp add: mkConfig_def)
  have p: "map_sum id (prune ?env ?config (SearchPath ?config)) (Inr planted_root :: error + node)
        = Inr ?pruned"
    by code_simp
  have l: "lfinder ?env (Inr ?pruned) ?config [''/work/root/a.txt'']
     = Exit 0 [''/work/root/a.txt (hardlink)'', ''/work/root/link_to_a (symlink) -> a.txt'',
               ''/work/root/sub/hard_a (hardlink)'']"
    by code_simp
  note t = skip_directories_pruned [of "''/proc''" "SkipDirs ?config" ?config ?env
        "\<lambda>path again. (None, None)" 3 None
        "[(''planted'', File 100), (''link'', Symlink 7 ''/work/root/a.txt'')]"
        "Inr planted_root" "[''/work/root/a.txt'']"]
  from t s have a: "snd (walkDir ?env ?config (\<lambda>path again. (None, None)) ''/proc''
          (Dir 3 None [(''planted'', File 100), (''link'', Symlink 7 ''/work/root/a.txt'')])) = []"
    by blast
  from t have "lfinder ?env (Inr planted_root) ?config [''/work/root/a.txt'']
      = lfinder ?env (map_sum id (prune ?env ?config (SearchPath ?config)) (Inr planted_root))
          ?config [''/work/root/a.txt'']"
    by (rule conjunct2 [THEN conjunct2, THEN conjunct2, THEN conjunct1])
  then have b: "lfinder ?env (Inr planted_root) ?config [''/work/root/a.txt'']
     = Exit 0 [''/work/root/a.txt (hardlink)'', ''/work/root/link_to_a (symlink) -> a.txt'',
               ''/work/root/sub/hard_a (hardlink)'']"
    by (simp only: p l)
  from a b show ?thesis by (rule conjI)
qed

subsection \<open>main\<close>

lemma drain_Got: "drain (map Got rs @ evs) out = drain evs (out @ rs)"
  by (induction rs arbitrary: out) auto

lemma workerStep_Stat:
  "workerStep (env\<lparr>Stat := stat'\<rparr>) config target targetInode entry send path
     = workerStep env config target targetInode entry send path"
proof -
  have s: "checkAndSendSymlink (env\<lparr>Stat := stat'\<rparr>) entry send path target
      = checkAndSendSymlink env entry send path target"
    by (simp add: checkAndSendSymlink_def split: option.splits sum.splits)
  have h: "\<And>fileInfo. checkAndSendHardlink (env\<lparr>Stat := stat'\<rparr>) entry send path targetInode fileInfo
      = checkAndSendHardlink env entry send path targetInode fileInfo"
    by (simp add: checkAndSendHardlink_def getInode_def split: option.splits sum.splits)
  show ?thesis
    by (simp add: workerStep_def s h split: sum.splits)
qed

lemma worker_Stat:
  "worker (env\<lparr>Stat := stat'\<rparr>) config target targetInode evs
     = worker env config target targetInode evs"
  by (induction env config target targetInode evs rule: worker.induct)
     (simp_all add: workerStep_Stat)

lemma walk_Stat:
  "walkDir (env\<lparr>Stat := stat'\<rparr>) config sched path n = walkDir env config sched path n"
  "walkEntries (env\<lparr>Stat := stat'\<rparr>) config sched path entries
     = walkEntries env config sched path entries"
  by (induction env config sched path n and env config sched path entries
      rule: walkDir_walkEntries.induct) (auto split: prod.splits option.splits)

lemma walker_Stat:
  "walker (env\<lparr>Stat := stat'\<rparr>) config sched tree = walker env config sched tree"
  by (simp add: walker_def WalkDir_def walk_Stat split: sum.splits)

lemma setup_main_Stat:
  assumes "stat' (targetPathOf env config (args ! 0))
             = Stat env (targetPathOf env config (args ! 0))"
  shows "setup_main (env\<lparr>Stat := stat'\<rparr>) config args = setup_main env config args"
proof -
  have g: "getInode (env\<lparr>Stat := stat'\<rparr>) = getInode env"
    by (simp add: getInode_def fun_eq_iff)
  have t: "targetPathOf (env\<lparr>Stat := stat'\<rparr>) config = targetPathOf env config"
    by (simp add: targetPathOf_def fun_eq_iff)
  show ?thesis
    by (simp add: setup_main_def g t assms Let_def cong: sum.case_cong)
qed

lemma lfinder_Stat:
  assumes "stat' (targetPathOf env config (args ! 0))
             = Stat env (targetPathOf env config (args ! 0))"
  shows "lfinder (env\<lparr>Stat := stat'\<rparr>) tree config args = lfinder env tree config args"
proof -
  have "setup_main (env\<lparr>Stat := stat'\<rparr>) config args = setup_main env config args"
    using assms by (rule setup_main_Stat [of stat' env config args])
  then show ?thesis
    by (simp add: lfinder_def worker_Stat walker_Stat cong: setup_result.case_cong)
qed

text \<open>
  Claim C7. The target identity is computed exactly once before the walk starts, by
  resolving the user-supplied target path relative to the search path if and only if it is
  not already absolute and then statting it; if that stat fails, the program aborts with a
  non-zero exit before any scanning begins.

  When the set-up goes on, \<^verbatim>\<open>targetPath\<close> is the target itself if it is absolute and
  the search path joined with it otherwise, and \<^verbatim>\<open>targetInode\<close> is the inode of what
  \<^verbatim>\<open>os.Stat\<close> found there (0 when \<open>getInode\<close> fails outside hardlinks-only mode).
  When \<^verbatim>\<open>os.Stat\<close> fails the process exits with status 1 after the one error line,
  whatever the tree holds and whatever the loop would have received. The workers and the
  walker take the two values as arguments and never call \<^verbatim>\<open>os.Stat\<close>: what they send
  is the same whatever \<^verbatim>\<open>os.Stat\<close> would return during the scan, and a whole run
  depends on \<^verbatim>\<open>os.Stat\<close> through its value at \<^verbatim>\<open>targetPath\<close> only. (The symlink
  check makes \<^verbatim>\<open>targetPath\<close> absolute again on every call, with \<^verbatim>\<open>filepath.Abs\<close>,
  which reads the working directory and no file.)
\<close>

theorem target_identity:
  "(setup_main env config [target] = Ready targetPath targetInode out \<longrightarrow>
      targetPath = (if IsAbs env target then target else Join env (SearchPath config) target)
      \<and> (\<exists>info. Stat env targetPath = Inr info
            \<and> (getInode env info = Inr targetInode \<and> out = []
                \<or> (\<exists>e. getInode env info = Inl e) \<and> targetInode = 0
                    \<and> \<not> HardlinksOnly config)))
   \<and> (Stat env (if IsAbs env target then target else Join env (SearchPath config) target)
         = Inl err \<longrightarrow>
        main env config [target] evs
          = Exit 1 [''Error accessing target file: '' @ error_string err]
        \<and> lfinder env tree config [target]
          = Exit 1 [''Error accessing target file: '' @ error_string err])
   \<and> worker (env\<lparr>Stat := stat'\<rparr>) config targetPath targetInode wevs
       = worker env config targetPath targetInode wevs
   \<and> walker (env\<lparr>Stat := stat'\<rparr>) config sched tree = walker env config sched tree
   \<and> (stat' (if IsAbs env target then target else Join env (SearchPath config) target)
         = Stat env (if IsAbs env target then target else Join env (SearchPath config) target)
        \<longrightarrow> lfinder (env\<lparr>Stat := stat'\<rparr>) tree config [target]
              = lfinder env tree config [target])"
proof (intro conjI impI)
  assume "setup_main env config [target] = Ready targetPath targetInode out"
  then show "targetPath = (if IsAbs env target then target else Join env (SearchPath config) target)"
    by (auto simp: setup_main_def targetPathOf_def Let_def split: sum.splits if_splits)
next
  assume "setup_main env config [target] = Ready targetPath targetInode out"
  then show "\<exists>info. Stat env targetPath = Inr info
            \<and> (getInode env info = Inr targetInode \<and> out = []
                \<or> (\<exists>e. getInode env info = Inl e) \<and> targetInode = 0
                    \<and> \<not> HardlinksOnly config)"
    by (auto simp: setup_main_def targetPathOf_def Let_def split: sum.splits if_splits)
next
  assume "Stat env (if IsAbs env target then target else Join env (SearchPath config) target)
         = Inl err"
  then have "setup_main env config [target]
      = Abort 1 [''Error accessing target file: '' @ error_string err]"
    by (auto simp: setup_main_def targetPathOf_def Let_def)
  then show "main env config [target] evs
          = Exit 1 [''Error accessing target file: '' @ error_string err]"
    "lfinder env tree config [target]
          = Exit 1 [''Error accessing target file: '' @ error_string err]"
    by (simp_all add: main_def lfinder_def)
next
  show "worker (env\<lparr>Stat := stat'\<rparr>) config targetPath targetInode wevs
       = worker env config targetPath targetInode wevs"
    by (rule worker_Stat)
next
  show "walker (env\<lparr>Stat := stat'\<rparr>) config sched tree = walker env config sched tree"
    by (rule walker_Stat)
next
  assume "stat' (if IsAbs env target then target else Join env (SearchPath config) target)
         = Stat env (if IsAbs env target then target else Join env (SearchPath config) target)"
  then have "stat' (targetPathOf env config ([target] ! 0))
      = Stat env (targetPathOf env config ([target] ! 0))"
    by (cases "IsAbs env target") (simp_all add: targetPathOf_def)
  then show "lfinder (env\<lparr>Stat := stat'\<rparr>) tree config [target] = lfinder env tree config [target]"
    by (rule lfinder_Stat)
qed

theorem target_identity_witness:
  "setup_main example_env (mkConfig False False ''root'' 30) [''a.txt'']
     = Ready ''root/a.txt'' 100 []
   \<and> ''root/a.txt'' = Join example_env ''root'' ''a.txt''
   \<and> setup_main example_env (mkConfig False False ''root'' 30) [''/work/root/a.txt'']
     = Ready ''/work/root/a.txt'' 100 []
   \<and> main example_env (mkConfig False False ''root'' 30) [''missing.txt'']
        [Got ''root/a.txt (hardlink)'', Closed]
     = Exit 1 [''Error accessing target file: stat root/missing.txt: no such file or directory'']
   \<and> lfinder (example_env\<lparr>Stat := \<lambda>p. if p = ''root/a.txt'' then Stat example_env p
                                       else Inl ENOENT\<rparr>)
       (fsNode example_root ''/work'' False ''root'') (mkConfig False False ''root'' 30)
       [''a.txt'']
     = Exit 0 [''root/a.txt (hardlink)'', ''root/link_to_a (symlink) -> a.txt'',
               ''root/sub/hard_a (hardlink)'']"
proof -
  let ?config = "mkConfig False False ''root'' 30"
  let ?stat = "\<lambda>p. if p = ''root/a.txt'' then Stat example_env p else Inl ENOENT"
  have r: "setup_main example_env ?config [''a.txt''] = Ready ''root/a.txt'' 100 []"
    by code_simp
  have a: "setup_main example_env ?config [''/work/root/a.txt'']
      = Ready ''/work/root/a.txt'' 100 []"
    by code_simp
  have i: "\<not> IsAbs example_env ''a.txt''" "\<not> IsAbs example_env ''missing.txt''"
    "SearchPath ?config = ''root''"
    by code_simp+
  have j: "Join example_env ''root'' ''a.txt'' = ''root/a.txt''"
    by code_simp
  have m: "Stat example_env (if IsAbs example_env ''missing.txt'' then ''missing.txt''
             else Join example_env (SearchPath ?config) ''missing.txt'')
           = Inl (OsError ''stat root/missing.txt: no such file or directory'')"
    by code_simp
  have l: "lfinder example_env (fsNode example_root ''/work'' False ''root'') ?config [''a.txt'']
     = Exit 0 [''root/a.txt (hardlink)'', ''root/link_to_a (symlink) -> a.txt'',
               ''root/sub/hard_a (hardlink)'']"
    by code_simp
  have 1: "''root/a.txt'' = Join example_env ''root'' ''a.txt''"
    using target_identity [of example_env ?config "''a.txt''" "''root/a.txt''" 100 "[]"] r i
    by simp
  have 2: "main example_env ?config [''missing.txt''] [Got ''root/a.txt (hardlink)'', Closed]
     = Exit 1 [''Error accessing target file: stat root/missing.txt: no such file or directory'']"
    using target_identity [of example_env ?config "''missing.txt''" _ _ _
        "OsError ''stat root/missing.txt: no such file or directory''" "[Got ''root/a.txt (hardlink)'', Closed]"] m
    by simp
  have s: "?stat (if IsAbs example_env ''a.txt'' then ''a.txt''
                  else Join example_env (SearchPath ?config) ''a.txt'')
           = Stat example_env (if IsAbs example_env ''a.txt'' then ''a.txt''
                  else Join example_env (SearchPath ?config) ''a.txt'')"
    using i j by simp
  have "lfinder (example_env\<lparr>Stat := ?stat\<rparr>) (fsNode example_root ''/work'' False ''root'')
          ?config [''a.txt'']
        = lfinder example_env (fsNode example_root ''/work'' False ''root'') ?config [''a.txt'']"
    by (rule target_identity [where env = example_env and config = ?config
          and target = "''a.txt''" and stat' = ?stat,
          THEN conjunct2, THEN conjunct2, THEN conjunct2, THEN conjunct2, THEN mp, OF s])
  with l have 3: "lfinder (example_env\<lparr>Stat := ?stat\<rparr>)
        (fsNode example_root ''/work'' False ''root'') ?config [''a.txt'']
     = Exit 0 [''root/a.txt (hardlink)'', ''root/link_to_a (symlink) -> a.txt'',
               ''root/sub/hard_a (hardlink)'']"
    by simp
  from r 1 a 2 3 show ?thesis by (intro conjI)
qed

lemma setup_main_Abort:
  "setup_main env config args = Abort status out \<Longrightarrow>
   status = 1 \<and>
   (length args \<noteq> 1
    \<or> (\<exists>e. Stat env (targetPathOf env config (args ! 0)) = Inl e)
    \<or> (HardlinksOnly config
        \<and> (\<exists>info e. Stat env (targetPathOf env config (args ! 0)) = Inr info
               \<and> getInode env info = Inl e)))"
  by (auto simp: setup_main_def Let_def split: if_splits sum.splits)

lemma setup_main_Ready:
  "setup_main env config args = Ready targetPath targetInode out \<Longrightarrow>
   \<not> (length args \<noteq> 1
    \<or> (\<exists>e. Stat env (targetPathOf env config (args ! 0)) = Inl e)
    \<or> (HardlinksOnly config
        \<and> (\<exists>info e. Stat env (targetPathOf env config (args ! 0)) = Inr info
               \<and> getInode env info = Inl e)))"
  by (auto simp: setup_main_def Let_def split: if_splits sum.splits)

lemma drain_status: "drain evs out = Exit status out' \<Longrightarrow> status = 0"
  by (induction evs out rule: drain.induct) auto

lemma setup_main_no_inode:
  "HardlinksOnly config \<Longrightarrow> GOOS env = ''windows'' \<Longrightarrow>
   \<exists>out. setup_main env config args = Abort 1 out"
  by (auto simp: setup_main_def getInode_def Let_def split: sum.splits)

lemma main_status:
  "main env config args evs = Exit status out \<Longrightarrow>
   status = (if length args \<noteq> 1
                \<or> (\<exists>e. Stat env (targetPathOf env config (args ! 0)) = Inl e)
                \<or> (HardlinksOnly config
                    \<and> (\<exists>info e. Stat env (targetPathOf env config (args ! 0)) = Inr info
                           \<and> getInode env info = Inl e))
             then 1 else 0)"
proof -
  assume m: "main env config args evs = Exit status out"
  show ?thesis
  proof (cases "setup_main env config args")
    case (Abort s o1)
    with m have "status = s" by (simp add: main_def)
    with setup_main_Abort [OF Abort] show ?thesis by simp
  next
    case (Ready tp ino o1)
    with m have "drain evs o1 = Exit status out" by (simp add: main_def)
    then have "status = 0" by (rule drain_status)
    with setup_main_Ready [OF Ready] show ?thesis by simp
  qed
qed

text \<open>Arguments that do not start with a minus sign are no flags: the defaults stand.
  What \<^verbatim>\<open>flag.Parse\<close> rejects: a flag that is not declared, a value of \<^verbatim>\<open>-t\<close>
  that is no number, and \<^verbatim>\<open>-p\<close> or \<^verbatim>\<open>-t\<close> as the last argument, without a value;
  and \<^verbatim>\<open>-help\<close> is \<^verbatim>\<open>flag.ErrHelp\<close>.\<close>

lemma parseFlags_no_flag:
  "hd a \<noteq> CHR ''-'' \<Longrightarrow>
   parseFlags parseInt s h p t (a # args) = Parsed (mkConfig s h p t) (a # args)"
  by simp

lemma parseFlags_undeclared:
  "name \<notin> set [''s'', ''h'', ''p'', ''t'', ''help''] \<Longrightarrow> name \<noteq> [] \<Longrightarrow>
   hd name \<noteq> CHR ''-'' \<Longrightarrow> CHR ''='' \<notin> set name \<Longrightarrow>
   parseFlags parseInt s h p t ((CHR ''-'' # name) # rest) = FlagError"
proof -
  assume n: "name \<notin> set [''s'', ''h'', ''p'', ''t'', ''help'']" "name \<noteq> []"
    "hd name \<noteq> CHR ''-''" "CHR ''='' \<notin> set name"
  from n(2) obtain c cs where name: "name = c # cs"
    by (cases name) auto
  from n(4) name have tw: "takeWhile (\<lambda>c. c \<noteq> CHR ''='') cs = cs" and e: "c \<noteq> CHR ''=''"
    by (auto simp: takeWhile_eq_all_conv)
  show ?thesis
    using n(1,3) e unfolding name by (auto simp: Let_def tw)
qed

lemma parseFlags_malformed:
  "parseInt v = None \<Longrightarrow> parseFlags parseInt s h p t (''-t'' # v # rest) = FlagError"
  by simp

lemma parseFlags_missing:
  "parseFlags parseInt s h p t [''-p''] = FlagError"
  "parseFlags parseInt s h p t [''-t''] = FlagError"
  by simp_all

lemma parseFlags_help:
  "parseFlags parseInt s h p t (''-help'' # rest) = ErrHelp"
  by simp

text \<open>
  Claim C4 (as amended). If hardlinks-only mode is requested where inode identity cannot be
  determined, the run fails fast at set-up with exit status 1 and its output is the error
  lines only, no result. When the process exits, its status is 2 if \<^verbatim>\<open>flag.Parse\<close>
  rejects the command line (a flag that is not declared, a malformed or a missing value)
  and 0 if the command line asks for \<^verbatim>\<open>-help\<close>, both before set-up and with nothing on
  standard output; else it is 1 on a usage error (not exactly one positional argument),
  when the target cannot be statted and in the hardlinks-only case above; and in every
  other outcome, including a run that timed out with partial results, it is 0.
\<close>

theorem exit_status:
  "(length args = 1 \<and> Stat env (targetPathOf env config (args ! 0)) = Inr info
      \<and> getInode env info = Inl err \<and> HardlinksOnly config \<longrightarrow>
       main env config args evs
         = Exit 1 ([''Error getting target inode: '' @ error_string err]
                   @ (if GOOS env = ''windows''
                      then [''Note: Hard link detection is not supported on Windows'']
                      else [])))
   \<and> (HardlinksOnly config \<and> GOOS env = ''windows'' \<longrightarrow>
        (\<exists>out. main env config args evs = Exit 1 out \<and> main env config args [] = Exit 1 out))
   \<and> (main env config args evs = Exit status out \<longrightarrow>
        status = (if length args \<noteq> 1
                     \<or> (\<exists>e. Stat env (targetPathOf env config (args ! 0)) = Inl e)
                     \<or> (HardlinksOnly config
                         \<and> (\<exists>info e. Stat env (targetPathOf env config (args ! 0)) = Inr info
                                \<and> getInode env info = Inl e))
                  then 1 else 0))
   \<and> (setup_main env config args = Ready targetPath targetInode out0 \<longrightarrow>
        main env config args (map Got results @ Done DeadlineExceeded # evs)
          = Exit 0 (out0 @ results @ [''Search timed out''])
        \<and> main env config args (map Got results @ Closed # evs) = Exit 0 (out0 @ results))
   \<and> (parseFlags parseInt False False ''.'' 30 argv = FlagError \<longrightarrow>
        mainArgs parseInt env argv evs = Exit 2 [])
   \<and> (parseFlags parseInt False False ''.'' 30 argv = ErrHelp \<longrightarrow>
        mainArgs parseInt env argv evs = Exit 0 [])
   \<and> (parseFlags parseInt False False ''.'' 30 argv = Parsed config args \<longrightarrow>
        mainArgs parseInt env argv evs = main env config args evs)
   \<and> (mainArgs parseInt env argv evs = Exit status out \<longrightarrow>
        status =
          (case parseFlags parseInt False False ''.'' 30 argv of
             FlagError \<Rightarrow> 2
           | ErrHelp \<Rightarrow> 0
           | Parsed c as \<Rightarrow>
               if length as \<noteq> 1
                  \<or> (\<exists>e. Stat env (targetPathOf env c (as ! 0)) = Inl e)
                  \<or> (HardlinksOnly c
                      \<and> (\<exists>info e. Stat env (targetPathOf env c (as ! 0)) = Inr info
                             \<and> getInode env info = Inl e))
               then 1 else 0))
   \<and> (name \<notin> set [''s'', ''h'', ''p'', ''t'', ''help''] \<and> name \<noteq> [] \<and> hd name \<noteq> CHR ''-''
        \<and> CHR ''='' \<notin> set name \<longrightarrow>
        mainArgs parseInt env ((CHR ''-'' # name) # rest) evs = Exit 2 [])
   \<and> (parseInt v = None \<longrightarrow> mainArgs parseInt env (''-t'' # v # rest) evs = Exit 2 [])
   \<and> mainArgs parseInt env [''-p''] evs = Exit 2 []
   \<and> mainArgs parseInt env [''-t''] evs = Exit 2 []
   \<and> mainArgs parseInt env (''-help'' # rest) evs = Exit 0 []"
proof (intro conjI impI)
  assume "length args = 1 \<and> Stat env (targetPathOf env config (args ! 0)) = Inr info
      \<and> getInode env info = Inl err \<and> HardlinksOnly config"
  then show "main env config args evs
         = Exit 1 ([''Error getting target inode: '' @ error_string err]
                   @ (if GOOS env = ''windows''
                      then [''Note: Hard link detection is not supported on Windows'']
                      else []))"
    by (simp add: main_def setup_main_def Let_def)
next
  assume "HardlinksOnly config \<and> GOOS env = ''windows''"
  then obtain out where "setup_main env config args = Abort 1 out"
    using setup_main_no_inode by blast
  then have "main env config args evs = Exit 1 out \<and> main env config args [] = Exit 1 out"
    by (simp add: main_def)
  then show "\<exists>out. main env config args evs = Exit 1 out \<and> main env config args [] = Exit 1 out"
    by (rule exI [where x = out])
next
  assume "main env config args evs = Exit status out"
  then show "status = (if length args \<noteq> 1
                     \<or> (\<exists>e. Stat env (targetPathOf env config (args ! 0)) = Inl e)
                     \<or> (HardlinksOnly config
                         \<and> (\<exists>info e. Stat env (targetPathOf env config (args ! 0)) = Inr info
                                \<and> getInode env info = Inl e))
                  then 1 else 0)"
    by (rule main_status)
next
  assume "setup_main env config args = Ready targetPath targetInode out0"
  then show "main env config args (map Got results @ Done DeadlineExceeded # evs)
          = Exit 0 (out0 @ results @ [''Search timed out''])"
    "main env config args (map Got results @ Closed # evs) = Exit 0 (out0 @ results)"
    by (simp_all add: main_def drain_Got)
next
  assume "parseFlags parseInt False False ''.'' 30 argv = FlagError"
  then show "mainArgs parseInt env argv evs = Exit 2 []"
    by (simp add: mainArgs_def)
next
  assume "parseFlags parseInt False False ''.'' 30 argv = ErrHelp"
  then show "mainArgs parseInt env argv evs = Exit 0 []"
    by (simp add: mainArgs_def)
next
  assume "parseFlags parseInt False False ''.'' 30 argv = Parsed config args"
  then show "mainArgs parseInt env argv evs = main env config args evs"
    by (simp add: mainArgs_def)
next
  assume m: "mainArgs parseInt env argv evs = Exit status out"
  show "status =
          (case parseFlags parseInt False False ''.'' 30 argv of
             FlagError \<Rightarrow> 2
           | ErrHelp \<Rightarrow> 0
           | Parsed c as \<Rightarrow>
               if length as \<noteq> 1
                  \<or> (\<exists>e. Stat env (targetPathOf env c (as ! 0)) = Inl e)
                  \<or> (HardlinksOnly c
                      \<and> (\<exists>info e. Stat env (targetPathOf env c (as ! 0)) = Inr info
                             \<and> getInode env info = Inl e))
               then 1 else 0)"
  proof (cases "parseFlags parseInt False False ''.'' 30 argv")
    case FlagError
    with m show ?thesis by (simp add: mainArgs_def)
  next
    case ErrHelp
    with m show ?thesis by (simp add: mainArgs_def)
  next
    case (Parsed c as)
    with m have "main env c as evs = Exit status out"
      by (simp add: mainArgs_def)
    then have "status = (if length as \<noteq> 1
                     \<or> (\<exists>e. Stat env (targetPathOf env c (as ! 0)) = Inl e)
                     \<or> (HardlinksOnly c
                         \<and> (\<exists>info e. Stat env (targetPathOf env c (as ! 0)) = Inr info
                                \<and> getInode env info = Inl e))
                  then 1 else 0)"
      by (rule main_status)
    with Parsed show ?thesis by (simp del: One_nat_def)
  qed
next
  assume "name \<notin> set [''s'', ''h'', ''p'', ''t'', ''help''] \<and> name \<noteq> [] \<and> hd name \<noteq> CHR ''-''
        \<and> CHR ''='' \<notin> set name"
  then have "parseFlags parseInt False False ''.'' 30 ((CHR ''-'' # name) # rest) = FlagError"
    by (intro parseFlags_undeclared) simp_all
  then show "mainArgs parseInt env ((CHR ''-'' # name) # rest) evs = Exit 2 []"
    by (simp only: mainArgs_def parsed.case)
next
  assume "parseInt v = None"
  then have "parseFlags parseInt False False ''.'' 30 (''-t'' # v # rest) = FlagError"
    by (rule parseFlags_malformed)
  then show "mainArgs parseInt env (''-t'' # v # rest) evs = Exit 2 []"
    by (simp only: mainArgs_def parsed.case)
next
  show "mainArgs parseInt env [''-p''] evs = Exit 2 []"
    by (simp only: mainArgs_def parseFlags_missing parsed.case)
next
  show "mainArgs parseInt env [''-t''] evs = Exit 2 []"
    by (simp only: mainArgs_def parseFlags_missing parsed.case)
next
  show "mainArgs parseInt env (''-help'' # rest) evs = Exit 0 []"
    by (simp only: mainArgs_def parseFlags_help parsed.case)
qed

text \<open>
  The claim as first stated gives status 0 to every outcome but the hardlinks-only one:
  with neither flag, on Linux, a target that does not exist ends the process with status 1,
  and so does a missing argument; and a flag that is not declared ends it with status 2.
\<close>

theorem exit_status_counterexample:
  "main example_env (mkConfig False False ''root'' 30) [''missing.txt''] [Closed]
     = Exit 1 [''Error accessing target file: stat root/missing.txt: no such file or directory'']
   \<and> HardlinksOnly (mkConfig False False ''root'' 30) = False
   \<and> main example_env (mkConfig False False ''root'' 30) [] [Closed]
     = Exit 1 [''Usage: lfinder [-s|-h] [-p path] [-t timeout] <target_file_name>'']
   \<and> mainArgs example_ParseInt example_env [''-p'', ''root'', ''missing.txt''] [Closed]
     = Exit 1 [''Error accessing target file: stat root/missing.txt: no such file or directory'']
   \<and> mainArgs example_ParseInt example_env [''-p'', ''root'', ''-x'', ''a.txt''] [Closed]
     = Exit 2 []"
proof (intro conjI)
  show "main example_env (mkConfig False False ''root'' 30) [''missing.txt''] [Closed]
     = Exit 1 [''Error accessing target file: stat root/missing.txt: no such file or directory'']"
    by code_simp
  show "HardlinksOnly (mkConfig False False ''root'' 30) = False"
    by code_simp
  show "main example_env (mkConfig False False ''root'' 30) [] [Closed]
     = Exit 1 [''Usage: lfinder [-s|-h] [-p path] [-t timeout] <target_file_name>'']"
    by code_simp
  show "mainArgs example_ParseInt example_env [''-p'', ''root'', ''missing.txt''] [Closed]
     = Exit 1 [''Error accessing target file: stat root/missing.txt: no such file or directory'']"
    by code_simp
  show "mainArgs example_ParseInt example_env [''-p'', ''root'', ''-x'', ''a.txt''] [Closed]
     = Exit 2 []"
    by code_simp
qed

theorem exit_status_witness:
  "main (example_env\<lparr>GOOS := ''windows''\<rparr>) (mkConfig False True ''root'' 30) [''a.txt'']
       [Got ''root/a.txt (hardlink)'', Closed]
     = Exit 1 [''Error getting target inode: hard links detection not supported on Windows'',
               ''Note: Hard link detection is not supported on Windows'']
   \<and> (\<exists>out. main (example_env\<lparr>GOOS := ''windows''\<rparr>) (mkConfig False True ''root'' 30)
                 [''missing.txt''] [Got ''root/a.txt (hardlink)'', Closed] = Exit 1 out
             \<and> main (example_env\<lparr>GOOS := ''windows''\<rparr>) (mkConfig False True ''root'' 30)
                 [''missing.txt''] [] = Exit 1 out)
   \<and> main example_env (mkConfig False False ''root'' 30) [''a.txt'']
       [Got ''root/a.txt (hardlink)'', Done DeadlineExceeded]
     = Exit 0 [''root/a.txt (hardlink)'', ''Search timed out'']
   \<and> (0::nat) = (if length [''a.txt''] \<noteq> 1
             \<or> (\<exists>e. Stat example_env (targetPathOf example_env
                        (mkConfig False False ''root'' 30) ([''a.txt''] ! 0)) = Inl e)
             \<or> (HardlinksOnly (mkConfig False False ''root'' 30)
                 \<and> (\<exists>info e. Stat example_env (targetPathOf example_env
                          (mkConfig False False ''root'' 30) ([''a.txt''] ! 0)) = Inr info
                        \<and> getInode example_env info = Inl e))
           then 1 else 0)
   \<and> parseFlags example_ParseInt False False ''.'' 30 [''-p'', ''root'', ''-x'', ''a.txt'']
       = FlagError
   \<and> mainArgs example_ParseInt example_env [''-p'', ''root'', ''-x'', ''a.txt''] [Closed]
       = Exit 2 []
   \<and> parseFlags example_ParseInt False False ''.'' 30 [''-s'', ''--help''] = ErrHelp
   \<and> mainArgs example_ParseInt example_env [''-s'', ''--help''] [Closed] = Exit 0 []
   \<and> mainArgs example_ParseInt example_env [''-x'', ''a.txt''] [Closed] = Exit 2 []
   \<and> mainArgs example_ParseInt example_env [''-t'', ''abc'', ''a.txt''] [Closed] = Exit 2 []
   \<and> mainArgs example_ParseInt example_env [''-help''] [Closed] = Exit 0 []
   \<and> parseFlags example_ParseInt False False ''.'' 30 [''-t=5'', ''-p'', ''root'', ''a.txt'']
       = Parsed (mkConfig False False ''root'' 5) [''a.txt'']
   \<and> mainArgs example_ParseInt example_env [''-t=5'', ''-p'', ''root'', ''a.txt'']
       [Got ''root/a.txt (hardlink)'', Done DeadlineExceeded]
     = Exit 0 [''root/a.txt (hardlink)'', ''Search timed out'']
   \<and> (0::nat) =
       (case parseFlags example_ParseInt False False ''.'' 30 [''-t=5'', ''-p'', ''root'', ''a.txt''] of
          FlagError \<Rightarrow> 2
        | ErrHelp \<Rightarrow> 0
        | Parsed c as \<Rightarrow>
            if length as \<noteq> 1
               \<or> (\<exists>e. Stat example_env (targetPathOf example_env c (as ! 0)) = Inl e)
               \<or> (HardlinksOnly c
                   \<and> (\<exists>info e. Stat example_env (targetPathOf example_env c (as ! 0)) = Inr info
                          \<and> getInode example_env info = Inl e))
            then 1 else 0)"
proof -
  let ?win = "example_env\<lparr>GOOS := ''windows''\<rparr>"
  let ?h = "mkConfig False True ''root'' 30"
  let ?d = "mkConfig False False ''root'' 30"
  let ?d5 = "mkConfig False False ''root'' 5"
  let ?late = "[Got ''root/a.txt (hardlink)'', Done DeadlineExceeded]"
  have s: "Stat ?win (targetPathOf ?win ?h ([''a.txt''] ! 0)) = Inr \<lparr>Mode = 0x1A4, Sys = Stat_t 100\<rparr>"
    by code_simp
  have g: "getInode ?win \<lparr>Mode = 0x1A4, Sys = Stat_t 100\<rparr>
             = Inl (Errorf ''hard links detection not supported on Windows'')"
    by code_simp
  have h: "HardlinksOnly ?h" "GOOS ?win = ''windows''"
    by (simp_all add: mkConfig_def)
  have r: "setup_main example_env ?d [''a.txt''] = Ready ''root/a.txt'' 100 []"
    by code_simp
  have r5: "setup_main example_env ?d5 [''a.txt''] = Ready ''root/a.txt'' 100 []"
    by code_simp
  have 1: "main ?win ?h [''a.txt''] [Got ''root/a.txt (hardlink)'', Closed]
     = Exit 1 [''Error getting target inode: hard links detection not supported on Windows'',
               ''Note: Hard link detection is not supported on Windows'']"
    using exit_status [of "[''a.txt'']" ?win ?h "\<lparr>Mode = 0x1A4, Sys = Stat_t 100\<rparr>"
        "Errorf ''hard links detection not supported on Windows''"
        "[Got ''root/a.txt (hardlink)'', Closed]"] s g h
    by (simp del: One_nat_def)
  have 2: "\<exists>out. main ?win ?h [''missing.txt''] [Got ''root/a.txt (hardlink)'', Closed] = Exit 1 out
             \<and> main ?win ?h [''missing.txt''] [] = Exit 1 out"
    by (rule exit_status [where env = ?win and config = ?h and args = "[''missing.txt'']"
          and evs = "[Got ''root/a.txt (hardlink)'', Closed]",
          THEN conjunct2, THEN conjunct1, THEN mp]) (use h in simp)
  have 3: "main example_env ?d [''a.txt''] ?late
     = Exit 0 [''root/a.txt (hardlink)'', ''Search timed out'']"
    using exit_status [where args = "[''a.txt'']" and env = example_env and config = ?d
        and targetPath = "''root/a.txt''" and targetInode = 100 and ?out0.0 = "[]"
        and results = "[''root/a.txt (hardlink)'']" and evs = "[]"] r
    by (simp del: One_nat_def)
  have 4: "(0::nat) = (if length [''a.txt''] \<noteq> 1
             \<or> (\<exists>e. Stat example_env (targetPathOf example_env ?d ([''a.txt''] ! 0)) = Inl e)
             \<or> (HardlinksOnly ?d
                 \<and> (\<exists>info e. Stat example_env (targetPathOf example_env ?d ([''a.txt''] ! 0))
                          = Inr info
                        \<and> getInode example_env info = Inl e))
           then 1 else 0)"
    by (rule exit_status [where args = "[''a.txt'']" and env = example_env and config = ?d
          and evs = ?late
          and status = 0 and out = "[''root/a.txt (hardlink)'', ''Search timed out'']",
          THEN conjunct2, THEN conjunct2, THEN conjunct1, THEN mp, OF 3])
  have p5: "parseFlags example_ParseInt False False ''.'' 30 [''-p'', ''root'', ''-x'', ''a.txt'']
              = FlagError"
    by code_simp
  have 5: "mainArgs example_ParseInt example_env [''-p'', ''root'', ''-x'', ''a.txt''] [Closed]
             = Exit 2 []"
    by (rule exit_status [where parseInt = example_ParseInt
          and argv = "[''-p'', ''root'', ''-x'', ''a.txt'']",
          THEN conjunct2, THEN conjunct2, THEN conjunct2, THEN conjunct2, THEN conjunct1,
          THEN mp, OF p5])
  have p6: "parseFlags example_ParseInt False False ''.'' 30 [''-s'', ''--help''] = ErrHelp"
    by code_simp
  have 6: "mainArgs example_ParseInt example_env [''-s'', ''--help''] [Closed] = Exit 0 []"
    by (rule exit_status [where parseInt = example_ParseInt and argv = "[''-s'', ''--help'']",
          THEN conjunct2, THEN conjunct2, THEN conjunct2, THEN conjunct2, THEN conjunct2,
          THEN conjunct1, THEN mp, OF p6])
  have x: "''x'' \<notin> set [''s'', ''h'', ''p'', ''t'', ''help''] \<and> ''x'' \<noteq> [] \<and> hd ''x'' \<noteq> CHR ''-''
        \<and> CHR ''='' \<notin> set ''x''"
    by simp
  have 7: "mainArgs example_ParseInt example_env [''-x'', ''a.txt''] [Closed] = Exit 2 []"
    by (rule exit_status [where parseInt = example_ParseInt and name = "''x''"
          and rest = "[''a.txt'']",
          THEN conjunct2, THEN conjunct2, THEN conjunct2, THEN conjunct2, THEN conjunct2,
          THEN conjunct2, THEN conjunct2, THEN conjunct2, THEN conjunct1, THEN mp, OF x])
  have n: "example_ParseInt ''abc'' = None"
    by (simp add: example_ParseInt_def)
  have 10: "mainArgs example_ParseInt example_env [''-t'', ''abc'', ''a.txt''] [Closed]
             = Exit 2 []"
    by (rule exit_status [where parseInt = example_ParseInt and v = "''abc''"
          and rest = "[''a.txt'']",
          THEN conjunct2, THEN conjunct2, THEN conjunct2, THEN conjunct2, THEN conjunct2,
          THEN conjunct2, THEN conjunct2, THEN conjunct2, THEN conjunct2, THEN conjunct1,
          THEN mp, OF n])
  have 11: "mainArgs example_ParseInt example_env [''-help''] [Closed] = Exit 0 []"
    by (rule exit_status [where parseInt = example_ParseInt and rest = "[]",
          THEN conjunct2, THEN conjunct2, THEN conjunct2, THEN conjunct2, THEN conjunct2,
          THEN conjunct2, THEN conjunct2, THEN conjunct2, THEN conjunct2, THEN conjunct2,
          THEN conjunct2, THEN conjunct2])
  have p8: "parseFlags example_ParseInt False False ''.'' 30 [''-t=5'', ''-p'', ''root'', ''a.txt'']
              = Parsed ?d5 [''a.txt'']"
    by code_simp
  have "mainArgs example_ParseInt example_env [''-t=5'', ''-p'', ''root'', ''a.txt''] ?late
          = main example_env ?d5 [''a.txt''] ?late"
    by (rule exit_status [where parseInt = example_ParseInt
          and argv = "[''-t=5'', ''-p'', ''root'', ''a.txt'']",
          THEN conjunct2, THEN conjunct2, THEN conjunct2, THEN conjunct2, THEN conjunct2,
          THEN conjunct2, THEN conjunct1, THEN mp, OF p8])
  moreover have "main example_env ?d5 [''a.txt''] ?late
     = Exit 0 [''root/a.txt (hardlink)'', ''Search timed out'']"
    using exit_status [where args = "[''a.txt'']" and env = example_env and config = ?d5
        and targetPath = "''root/a.txt''" and targetInode = 100 and ?out0.0 = "[]"
        and results = "[''root/a.txt (hardlink)'']" and evs = "[]"] r5
    by (simp del: One_nat_def)
  ultimately have 8: "mainArgs example_ParseInt example_env
        [''-t=5'', ''-p'', ''root'', ''a.txt''] ?late
     = Exit 0 [''root/a.txt (hardlink)'', ''Search timed out'']"
    by simp
  have 9: "(0::nat) =
       (case parseFlags example_ParseInt False False ''.'' 30 [''-t=5'', ''-p'', ''root'', ''a.txt''] of
          FlagError \<Rightarrow> 2
        | ErrHelp \<Rightarrow> 0
        | Parsed c as \<Rightarrow>
            if length as \<noteq> 1
               \<or> (\<exists>e. Stat example_env (targetPathOf example_env c (as ! 0)) = Inl e)
               \<or> (HardlinksOnly c
                   \<and> (\<exists>info e. Stat example_env (targetPathOf example_env c (as ! 0)) = Inr info
                          \<and> getInode example_env info = Inl e))
            then 1 else 0)"
    by (rule exit_status [where parseInt = example_ParseInt and env = example_env
          and argv = "[''-t=5'', ''-p'', ''root'', ''a.txt'']" and evs = ?late
          and status = 0 and out = "[''root/a.txt (hardlink)'', ''Search timed out'']",
          THEN conjunct2, THEN conjunct2, THEN conjunct2, THEN conjunct2, THEN conjunct2,
          THEN conjunct2, THEN conjunct2, THEN conjunct1, THEN mp, OF 8])
  from 1 2 3 4 p5 5 p6 6 7 10 11 p8 8 9 show ?thesis by (intro conjI)
qed

lemma feasible_drain:
  "feasible (Some e) buffer closed evs \<Longrightarrow> drain evs printed = Exit status out \<Longrightarrow>
   (\<exists>n\<le>length buffer. out = printed @ take n buffer
        @ [if e = DeadlineExceeded then ''Search timed out'' else ''Search canceled''])
   \<or> closed \<and> out = printed @ buffer"
proof (induction evs arbitrary: buffer printed)
  case Nil
  then show ?case by simp
next
  case (Cons ev evs)
  show ?case
  proof (cases ev)
    case (Done e')
    with Cons.prems have "e' = e"
      by (auto simp: ready_def split: list.splits if_splits)
    with Cons.prems Done have "out = printed @ take 0 buffer
        @ [if e = DeadlineExceeded then ''Search timed out'' else ''Search canceled'']"
      by (cases e) auto
    then show ?thesis by blast
  next
    case Closed
    with Cons.prems have "closed" "buffer = []" "out = printed"
      by (auto simp: ready_def split: list.splits if_splits)
    then show ?thesis by simp
  next
    case (Got r)
    with Cons.prems obtain rs where b: "buffer = r # rs"
      by (auto simp: ready_def split: list.splits if_splits)
    from Cons.prems Got b have f: "feasible (Some e) rs closed evs"
      and d: "drain evs (printed @ [r]) = Exit status out"
      by simp_all
    from Cons.IH [OF f d] show ?thesis
    proof
      assume "\<exists>n\<le>length rs. out = (printed @ [r]) @ take n rs
        @ [if e = DeadlineExceeded then ''Search timed out'' else ''Search canceled'']"
      then obtain n where "n \<le> length rs" "out = (printed @ [r]) @ take n rs
        @ [if e = DeadlineExceeded then ''Search timed out'' else ''Search canceled'']"
        by blast
      then have "Suc n \<le> length buffer" "out = printed @ take (Suc n) buffer
        @ [if e = DeadlineExceeded then ''Search timed out'' else ''Search canceled'']"
        using b by simp_all
      then show ?thesis by blast
    next
      assume "closed \<and> out = (printed @ [r]) @ rs"
      then show ?thesis using b by simp
    qed
  qed
qed

text \<open>
  Claim C3 (as amended). When the \<^verbatim>\<open>select\<close> of main's loop takes the
  \<^verbatim>\<open>ctx.Done()\<close> arm, main prints \<^verbatim>\<open>Search timed out\<close> after a deadline and
  \<^verbatim>\<open>Search canceled\<close> after a cancellation as its last line and returns; the results
  it received before are printed before that line, in the order received. Of the results
  that are in the channel when the context is done a prefix is printed, possibly none; and
  if the loop sees the channel closed first, it returns without a status line.
\<close>

theorem drain_on_termination:
  "(setup_main env config args = Ready targetPath targetInode out0 \<longrightarrow>
      main env config args evs = drain evs out0)
   \<and> drain (map Got received @ Done DeadlineExceeded # evs') printed
       = Exit 0 (printed @ received @ [''Search timed out''])
   \<and> drain (map Got received @ Done Canceled # evs') printed
       = Exit 0 (printed @ received @ [''Search canceled''])
   \<and> (feasible (Some e) buffer closed evs \<and> drain evs printed = Exit status out \<longrightarrow>
        status = 0
        \<and> ((\<exists>n\<le>length buffer. out = printed @ take n buffer
               @ [if e = DeadlineExceeded then ''Search timed out'' else ''Search canceled''])
            \<or> closed \<and> out = printed @ buffer))"
proof (intro conjI impI)
  assume "setup_main env config args = Ready targetPath targetInode out0"
  then show "main env config args evs = drain evs out0"
    by (simp add: main_def)
next
  show "drain (map Got received @ Done DeadlineExceeded # evs') printed
       = Exit 0 (printed @ received @ [''Search timed out''])"
    by (simp add: drain_Got)
next
  show "drain (map Got received @ Done Canceled # evs') printed
       = Exit 0 (printed @ received @ [''Search canceled''])"
    by (simp add: drain_Got)
next
  assume "feasible (Some e) buffer closed evs \<and> drain evs printed = Exit status out"
  then show "status = 0"
    using drain_status by blast
next
  assume "feasible (Some e) buffer closed evs \<and> drain evs printed = Exit status out"
  then show "(\<exists>n\<le>length buffer. out = printed @ take n buffer
               @ [if e = DeadlineExceeded then ''Search timed out'' else ''Search canceled''])
            \<or> closed \<and> out = printed @ buffer"
    using feasible_drain by blast
qed

text \<open>
  The claim as first stated has every result that a worker produced before the signal
  delivered, and a status line printed whenever the scan ends by the signal. A worker has
  sent the line for \<^verbatim>\<open>root/sub/hard_a\<close>, the deadline passes, and the \<^verbatim>\<open>select\<close> takes
  the \<^verbatim>\<open>ctx.Done()\<close> arm: the line is never printed. And when the workers have left
  and the channel is closed and empty, the \<^verbatim>\<open>select\<close> can take that arm: no status
  line is printed.
\<close>

theorem drain_on_termination_counterexample:
  "workerStep example_env (mkConfig False False ''root'' 30) ''root/a.txt'' 100 None None
      ''root/sub/hard_a'' = [''root/sub/hard_a (hardlink)'']
   \<and> feasible (Some DeadlineExceeded) [''root/sub/hard_a (hardlink)''] False
        [Done DeadlineExceeded]
   \<and> main example_env (mkConfig False False ''root'' 30) [''a.txt''] [Done DeadlineExceeded]
       = Exit 0 [''Search timed out'']
   \<and> feasible (Some DeadlineExceeded) [] True [Closed]
   \<and> main example_env (mkConfig False False ''root'' 30) [''a.txt''] [Closed] = Exit 0 []"
proof (intro conjI)
  show "workerStep example_env (mkConfig False False ''root'' 30) ''root/a.txt'' 100 None None
      ''root/sub/hard_a'' = [''root/sub/hard_a (hardlink)'']"
    by code_simp
  show "feasible (Some DeadlineExceeded) [''root/sub/hard_a (hardlink)''] False
        [Done DeadlineExceeded]"
    by code_simp
  show "main example_env (mkConfig False False ''root'' 30) [''a.txt''] [Done DeadlineExceeded]
       = Exit 0 [''Search timed out'']"
    by code_simp
  show "feasible (Some DeadlineExceeded) [] True [Closed]"
    by code_simp
  show "main example_env (mkConfig False False ''root'' 30) [''a.txt''] [Closed] = Exit 0 []"
    by code_simp
qed

theorem drain_on_termination_witness:
  "main example_env (mkConfig False False ''root'' 30) [''a.txt'']
      [Got ''root/a.txt (hardlink)'', Done DeadlineExceeded]
     = Exit 0 [''root/a.txt (hardlink)'', ''Search timed out'']
   \<and> feasible (Some DeadlineExceeded)
        [''root/a.txt (hardlink)'', ''root/sub/hard_a (hardlink)''] False
        [Got ''root/a.txt (hardlink)'', Done DeadlineExceeded]
   \<and> drain [Got ''root/a.txt (hardlink)'', Done DeadlineExceeded] []
     = Exit 0 [''root/a.txt (hardlink)'', ''Search timed out'']
   \<and> (\<exists>n\<le>length [''root/a.txt (hardlink)'', ''root/sub/hard_a (hardlink)''].
         [''root/a.txt (hardlink)'', ''Search timed out'']
         = [] @ take n [''root/a.txt (hardlink)'', ''root/sub/hard_a (hardlink)'']
             @ [''Search timed out''])"
proof -
  let ?d = "mkConfig False False ''root'' 30"
  let ?evs = "[Got ''root/a.txt (hardlink)'', Done DeadlineExceeded]"
  let ?buffer = "[''root/a.txt (hardlink)'', ''root/sub/hard_a (hardlink)'']"
  let ?out = "[''root/a.txt (hardlink)'', ''Search timed out'']"
  have r: "setup_main example_env ?d [''a.txt''] = Ready ''root/a.txt'' 100 []"
    by code_simp
  have f: "feasible (Some DeadlineExceeded) ?buffer False ?evs"
    by code_simp
  have d: "drain ?evs [] = Exit 0 ?out"
    by simp
  have "main example_env ?d [''a.txt''] ?evs = drain ?evs []"
    by (rule drain_on_termination [where env = example_env and config = ?d
          and args = "[''a.txt'']" and targetPath = "''root/a.txt''" and targetInode = 100
          and ?out0.0 = "[]" and evs = ?evs, THEN conjunct1, THEN mp, OF r])
  with d have 1: "main example_env ?d [''a.txt''] ?evs = Exit 0 ?out"
    by simp
  have "0 = (0::nat) \<and> ((\<exists>n\<le>length ?buffer. ?out = [] @ take n ?buffer
          @ [if DeadlineExceeded = DeadlineExceeded then ''Search timed out''
             else ''Search canceled''])
        \<or> False \<and> ?out = [] @ ?buffer)"
    by (rule drain_on_termination [where e = DeadlineExceeded and buffer = ?buffer
          and closed = False and evs = ?evs and printed = "[]" and status = 0 and out = ?out,
          THEN conjunct2, THEN conjunct2, THEN conjunct2, THEN mp]) (use f d in simp)
  then have 2: "\<exists>n\<le>length ?buffer. ?out = [] @ take n ?buffer @ [''Search timed out'']"
    by simp
  from 1 f d 2 show ?thesis by (intro conjI)
qed

subsection \<open>The symlink check\<close>

text \<open>What the check compares: \<^verbatim>\<open>filepath.Abs\<close> of the candidate's resolved path with
  \<^verbatim>\<open>filepath.Abs\<close> of the target as main formed it.\<close>

lemma checkAndSendSymlink_match:
  "snd (checkAndSendSymlink env entry send path target) \<noteq> [] \<longleftrightarrow>
     (\<exists>resolved c. EvalSymlinks env path = Inr resolved \<and> Abs env resolved = Inr c
         \<and> Abs env target = Inr c)
     \<and> (\<exists>l. Readlink env path = Inr l) \<and> entry = None \<and> send = None"
  by (auto simp: checkAndSendSymlink_def split: option.splits sum.splits)

lemma checkAndSendSymlink_line:
  "EvalSymlinks env path = Inr resolved \<Longrightarrow> Abs env resolved = Inr c \<Longrightarrow>
   Abs env target = Inr c \<Longrightarrow> Readlink env path = Inr l \<Longrightarrow>
   checkAndSendSymlink env None None path target = (None, [path @ '' (symlink) -> '' @ l])"
  by (simp add: checkAndSendSymlink_def)

text \<open>
  Claim C2. For every candidate path that is a symbolic link, the symlink check reports a
  match if and only if the candidate's fully resolved canonical absolute path equals the
  canonical path of the target, where the target's canonical path is its absolute,
  symlink-resolved form; in particular a relative symlink and an absolute symlink to the
  same file both match.

  The code does not keep this. Its comments have the check use canonical paths to compare
  the targets, and it resolves the candidate, but the path it calls
  \<^verbatim>\<open>targetCanonical\<close> is \<^verbatim>\<open>filepath.Abs(target)\<close>, which resolves no link. In
  \<^verbatim>\<open>/work\<close>, the target \<^verbatim>\<open>root/t\<close> is a symbolic link to \<^verbatim>\<open>a.txt\<close>, and the
  candidate \<^verbatim>\<open>root/rel\<close> is a symbolic link whose text can be read: both have the
  canonical path \<^verbatim>\<open>/work/root/a.txt\<close>, and the check sends nothing, so that
  \<^verbatim>\<open>lfinder -s -p root t\<close> prints no line. With the target \<^verbatim>\<open>a.txt\<close>, which has
  the same canonical path, the same candidate is reported, and so are the two other links.
\<close>

theorem symlink_target_through_link:
  "fsRealpath linked_root ''/work'' ''root/rel'' = Inr ''/work/root/a.txt''
   \<and> fsRealpath linked_root ''/work'' ''root/t'' = Inr ''/work/root/a.txt''
   \<and> map_sum id (\<lambda>info. Mode info AND ModeSymlink \<noteq> 0) (Lstat linked_env ''root/rel'')
       = Inr True
   \<and> Readlink linked_env ''root/rel'' = Inr ''./sub/../a.txt''
   \<and> checkAndSendSymlink linked_env None None ''root/rel'' ''root/t'' = (None, [])
   \<and> lfinder linked_env (fsNode linked_root ''/work'' False ''root'')
       (mkConfig True False ''root'' 30) [''t''] = Exit 0 []
   \<and> fsRealpath linked_root ''/work'' ''root/a.txt'' = Inr ''/work/root/a.txt''
   \<and> checkAndSendSymlink linked_env None None ''root/rel'' ''root/a.txt''
       = (None, [''root/rel (symlink) -> ./sub/../a.txt''])
   \<and> lfinder linked_env (fsNode linked_root ''/work'' False ''root'')
       (mkConfig True False ''root'' 30) [''a.txt'']
       = Exit 0 [''root/abs (symlink) -> /work/root/a.txt'',
                 ''root/rel (symlink) -> ./sub/../a.txt'',
                 ''root/t (symlink) -> a.txt'']"
proof (intro conjI)
  show "fsRealpath linked_root ''/work'' ''root/rel'' = Inr ''/work/root/a.txt''"
    by code_simp
  show "fsRealpath linked_root ''/work'' ''root/t'' = Inr ''/work/root/a.txt''"
    by code_simp
  show "map_sum id (\<lambda>info. Mode info AND ModeSymlink \<noteq> 0) (Lstat linked_env ''root/rel'')
       = Inr True"
    by code_simp
  show "Readlink linked_env ''root/rel'' = Inr ''./sub/../a.txt''"
    by code_simp
  show "checkAndSendSymlink linked_env None None ''root/rel'' ''root/t'' = (None, [])"
    by code_simp
  show "lfinder linked_env (fsNode linked_root ''/work'' False ''root'')
       (mkConfig True False ''root'' 30) [''t''] = Exit 0 []"
    by code_simp
  show "fsRealpath linked_root ''/work'' ''root/a.txt'' = Inr ''/work/root/a.txt''"
    by code_simp
  show "checkAndSendSymlink linked_env None None ''root/rel'' ''root/a.txt''
       = (None, [''root/rel (symlink) -> ./sub/../a.txt''])"
    by code_simp
  show "lfinder linked_env (fsNode linked_root ''/work'' False ''root'')
       (mkConfig True False ''root'' 30) [''a.txt'']
       = Exit 0 [''root/abs (symlink) -> /work/root/a.txt'',
                 ''root/rel (symlink) -> ./sub/../a.txt'',
                 ''root/t (symlink) -> a.txt'']"
    by code_simp
qed

subsection \<open>Complete runs\<close>

lemma worker_jobs:
  "worker env config target targetInode (map (\<lambda>path. Got (path, None, None)) jobs @ [Closed])
     = concat (map (workerStep env config target targetInode None None) jobs)"
  by (induction jobs) auto

lemma mset_concat_update:
  "w < length sent \<Longrightarrow> sent ! w = r # rs \<Longrightarrow>
   mset (concat sent) = add_mset r (mset (concat (sent[w := rs])))"
proof -
  assume w: "w < length sent" and s: "sent ! w = r # rs"
  have "sent = take w sent @ (r # rs) # drop (Suc w) sent"
    using w s id_take_nth_drop by metis
  moreover have "sent[w := rs] = take w sent @ rs # drop (Suc w) sent"
    using w by (simp add: upd_conv_take_nth_drop)
  ultimately have "mset (concat sent)
      = mset (concat (take w sent)) + mset (r # rs) + mset (concat (drop (Suc w) sent))"
    and "mset (concat (sent[w := rs]))
      = mset (concat (take w sent)) + mset rs + mset (concat (drop (Suc w) sent))"
    by (metis concat.simps(2) concat_append mset_append add.assoc)+
  then show ?thesis by simp
qed

lemma interleave_mset:
  "interleave order sent = Some results \<Longrightarrow> mset results = mset (concat sent)"
proof (induction order arbitrary: sent results)
  case Nil
  then show ?case by (simp split: if_splits)
next
  case (Cons w order)
  from Cons.prems obtain r rs results' where w: "w < length sent" and s: "sent ! w = r # rs"
    and i: "interleave order (sent[w := rs]) = Some results'" and r: "results = r # results'"
    by (auto split: if_splits list.splits)
  from Cons.IH [OF i] have "mset results' = mset (concat (sent[w := rs]))" .
  with r mset_concat_update [OF w s] show ?case by simp
qed

lemma jobsOf_Cons:
  "jobsOf w (job # jobs) (t # taker) = (if t = w then [job] else []) @ jobsOf w jobs taker"
  by (simp add: jobsOf_def)

lemma sum_list_delta:
  "t < n \<Longrightarrow> (\<Sum>w\<leftarrow>[0..<n]. (if t = w then a else {#}) + g w) = a + (\<Sum>w\<leftarrow>[0..<n]. g w)"
  for a :: "'a multiset"
proof (induction n)
  case 0
  then show ?case by simp
next
  case (Suc n)
  show ?case
  proof (cases "t < n")
    case True
    with Suc.IH show ?thesis by simp
  next
    case False
    with Suc.prems have t: "t = n" by simp
    have "(\<Sum>w\<leftarrow>[0..<n]. (if n = w then a else {#}) + g w) = (\<Sum>w\<leftarrow>[0..<n]. g w)"
      by (rule arg_cong [where f = sum_list]) (simp add: map_eq_conv)
    then show ?thesis using t by simp
  qed
qed

lemma pool_mset:
  "length taker = length jobs \<Longrightarrow> list_all (\<lambda>t. t < n) taker \<Longrightarrow>
   (\<Sum>w\<leftarrow>[0..<n]. mset (concat (map f (jobsOf w jobs taker)))) = mset (concat (map f jobs))"
proof (induction jobs arbitrary: taker)
  case Nil
  then show ?case by (simp add: jobsOf_def)
next
  case (Cons job jobs)
  from Cons.prems obtain t taker' where taker: "taker = t # taker'"
    by (cases taker) auto
  with Cons.prems have t: "t < n" and l: "length taker' = length jobs"
    and a: "list_all (\<lambda>t. t < n) taker'"
    by simp_all
  have "(\<Sum>w\<leftarrow>[0..<n]. mset (concat (map f (jobsOf w (job # jobs) taker))))
      = (\<Sum>w\<leftarrow>[0..<n]. (if t = w then mset (f job) else {#})
            + mset (concat (map f (jobsOf w jobs taker'))))"
    by (rule arg_cong [where f = sum_list]) (simp add: taker jobsOf_Cons)
  also have "\<dots> = mset (f job) + (\<Sum>w\<leftarrow>[0..<n]. mset (concat (map f (jobsOf w jobs taker'))))"
    using t by (rule sum_list_delta)
  also have "\<dots> = mset (concat (map f (job # jobs)))"
    using Cons.IH [OF l a] by simp
  finally show ?case .
qed

lemma drain_results: "drain (map Got results @ [Closed]) out = Exit 0 (out @ results)"
  by (induction results arbitrary: out) auto

lemma pool_results:
  assumes "pool env config target targetInode jobs taker order = Some results"
  shows "mset results = mset (concat (map (workerStep env config target targetInode None None) jobs))"
proof -
  let ?sent = "map (\<lambda>w. worker env config target targetInode
                    (map (\<lambda>path. Got (path, None, None)) (jobsOf w jobs taker) @ [Closed]))
                [0..<numWorkers]"
  from assms have t: "length taker = length jobs" "list_all (\<lambda>t. t < numWorkers) taker"
    and i: "interleave order ?sent = Some results"
    by (auto simp: pool_def split: if_splits)
  have "mset results = mset (concat ?sent)"
    using i by (rule interleave_mset)
  also have "\<dots> = (\<Sum>w\<leftarrow>[0..<numWorkers]. mset (concat (map
        (workerStep env config target targetInode None None) (jobsOf w jobs taker))))"
    by (simp add: mset_concat worker_jobs comp_def)
  also have "\<dots> = mset (concat (map (workerStep env config target targetInode None None) jobs))"
    using t by (rule pool_mset)
  finally show ?thesis .
qed

lemma run_lfinder:
  assumes "run env tree config args taker order = Some p"
  shows "\<exists>status out out'. p = Exit status out \<and> lfinder env tree config args = Exit status out'
           \<and> mset out = mset out'"
proof (cases "setup_main env config args")
  case (Abort status out)
  with assms have "p = Exit status out" "lfinder env tree config args = Exit status out"
    by (simp_all add: run_def lfinder_def)
  then show ?thesis by blast
next
  case (Ready targetPath targetInode out0)
  obtain jobs printed where w: "walker env config (\<lambda>path again. (None, None)) tree = (jobs, printed)"
    by (cases "walker env config (\<lambda>path again. (None, None)) tree") auto
  from assms Ready w obtain results where
    i: "pool env config targetPath targetInode jobs taker order = Some results"
    and p: "p = drain (map Got results @ [Closed]) (out0 @ printed)"
    by (auto simp: run_def split: option.splits)
  from i have m: "mset results
      = mset (concat (map (workerStep env config targetPath targetInode None None) jobs))"
    by (rule pool_results)
  have l: "lfinder env tree config args = Exit 0 (out0 @ printed
      @ concat (map (workerStep env config targetPath targetInode None None) jobs))"
    using Ready w by (simp add: lfinder_def worker_jobs drain_results)
  have "p = Exit 0 (out0 @ printed @ results)"
    using p by (simp add: drain_results)
  with l m show ?thesis by simp
qed

lemma interleave_first:
  "concat rest = [] \<Longrightarrow> interleave (replicate (length rs) 0) (rs # rest) = Some rs"
  by (induction rs) auto

lemma jobsOf_replicate:
  "jobsOf w jobs (replicate (length jobs) 0) = (if w = 0 then jobs else [])"
  by (induction jobs) (auto simp: jobsOf_def)

lemma pool_sequential:
  "pool env config target targetInode jobs (replicate (length jobs) 0)
     (replicate (length (concat (map (workerStep env config target targetInode None None)
        jobs))) 0)
   = Some (concat (map (workerStep env config target targetInode None None) jobs))"
proof -
  let ?results = "concat (map (workerStep env config target targetInode None None) jobs)"
  have u: "[0..<numWorkers] = 0 # [1..<numWorkers]"
    by (simp add: numWorkers_def upt_conv_Cons)
  have s: "map (\<lambda>w. worker env config target targetInode
                    (map (\<lambda>path. Got (path, None, None))
                       (jobsOf w jobs (replicate (length jobs) 0)) @ [Closed]))
                [0..<numWorkers]
           = ?results # map (\<lambda>w. []) [1..<numWorkers]"
    unfolding u by (simp add: jobsOf_replicate worker_jobs)
  have c: "concat (map (\<lambda>w. []) [1..<numWorkers]) = ([] :: string list)"
    by simp
  have i: "interleave (replicate (length ?results) 0) (?results # map (\<lambda>w. []) [1..<numWorkers])
      = Some ?results"
    using c by (rule interleave_first)
  have t: "list_all (\<lambda>t. t < numWorkers) (replicate (length jobs) 0)"
    by (simp add: list_all_length numWorkers_def)
  show ?thesis
    unfolding pool_def by (simp only: s i t length_replicate simp_thms if_True)
qed

lemma run_sequential:
  assumes "setup_main env config args = Ready targetPath targetInode out"
    and "walker env config (\<lambda>path again. (None, None)) tree = (jobs, printed)"
  shows "run env tree config args (replicate (length jobs) 0)
           (replicate (length (concat (map (workerStep env config targetPath targetInode
              None None) jobs))) 0)
         = Some (lfinder env tree config args)"
  using assms by (simp add: run_def lfinder_def pool_sequential worker_jobs)

lemma example_lfinder:
  "lfinder example_env (fsNode example_root ''/work'' False ''root'')
     (mkConfig False False ''root'' 30) [''a.txt'']
   = Exit 0 [''root/a.txt (hardlink)'', ''root/link_to_a (symlink) -> a.txt'',
             ''root/sub/hard_a (hardlink)'']"
  by code_simp

text \<open>
  Claim C1 (as amended). For the tree
  \<^verbatim>\<open>root/{a.txt, link_to_a -> a.txt, sub/hard_a (hardlink of a.txt), sub/other.txt}\<close>
  with target \<^verbatim>\<open>a.txt\<close>, a default-mode scan started from \<^verbatim>\<open>root\<close> outputs exactly
  three match lines, in some order: a \<^verbatim>\<open>(hardlink)\<close> line for \<^verbatim>\<open>a.txt\<close> itself, whose
  inode is the target's, a \<^verbatim>\<open>(symlink) ->\<close> line for \<^verbatim>\<open>link_to_a\<close> and a
  \<^verbatim>\<open>(hardlink)\<close> line for \<^verbatim>\<open>sub/hard_a\<close>, and no other line. This holds for every
  complete run: however the jobs are taken by the eight workers and in whatever order
  their results are received.
\<close>

theorem example_scan:
  "run example_env (fsNode example_root ''/work'' False ''root'')
      (mkConfig False False ''root'' 30) [''a.txt''] taker order = Some p \<longrightarrow>
   (\<exists>out. p = Exit 0 out
      \<and> mset out = {#''root/a.txt (hardlink)'', ''root/link_to_a (symlink) -> a.txt'',
                      ''root/sub/hard_a (hardlink)''#})"
proof
  assume "run example_env (fsNode example_root ''/work'' False ''root'')
      (mkConfig False False ''root'' 30) [''a.txt''] taker order = Some p"
  then obtain status out out' where p: "p = Exit status out"
    and l: "lfinder example_env (fsNode example_root ''/work'' False ''root'')
       (mkConfig False False ''root'' 30) [''a.txt''] = Exit status out'"
    and m: "mset out = mset out'"
    using run_lfinder by blast
  from l have "status = 0"
    and "out' = [''root/a.txt (hardlink)'', ''root/link_to_a (symlink) -> a.txt'',
                 ''root/sub/hard_a (hardlink)'']"
    by (simp_all add: example_lfinder)
  with p m have "p = Exit 0 out
      \<and> mset out = {#''root/a.txt (hardlink)'', ''root/link_to_a (symlink) -> a.txt'',
                      ''root/sub/hard_a (hardlink)''#}"
    by simp
  then show "\<exists>out. p = Exit 0 out
      \<and> mset out = {#''root/a.txt (hardlink)'', ''root/link_to_a (symlink) -> a.txt'',
                      ''root/sub/hard_a (hardlink)''#}"
    by (rule exI [where x = out])
qed

theorem example_scan_witness:
  "run example_env (fsNode example_root ''/work'' False ''root'')
      (mkConfig False False ''root'' 30) [''a.txt''] [0, 1, 2, 3, 4, 5] [4, 2, 1]
     = Some (Exit 0 [''root/sub/hard_a (hardlink)'', ''root/link_to_a (symlink) -> a.txt'',
                     ''root/a.txt (hardlink)''])
   \<and> mset [''root/sub/hard_a (hardlink)'', ''root/link_to_a (symlink) -> a.txt'',
            ''root/a.txt (hardlink)'']
     = {#''root/a.txt (hardlink)'', ''root/link_to_a (symlink) -> a.txt'',
         ''root/sub/hard_a (hardlink)''#}"
proof -
  have r: "run example_env (fsNode example_root ''/work'' False ''root'')
      (mkConfig False False ''root'' 30) [''a.txt''] [0, 1, 2, 3, 4, 5] [4, 2, 1]
     = Some (Exit 0 [''root/sub/hard_a (hardlink)'', ''root/link_to_a (symlink) -> a.txt'',
                     ''root/a.txt (hardlink)''])"
    by code_simp
  with example_scan [of "[0, 1, 2, 3, 4, 5]" "[4, 2, 1]"
      "Exit 0 [''root/sub/hard_a (hardlink)'', ''root/link_to_a (symlink) -> a.txt'',
               ''root/a.txt (hardlink)'']"]
  show ?thesis by simp
qed

text \<open>
  The claim as first stated has two lines. The walker sends \<^verbatim>\<open>root/a.txt\<close> as a job
  like any other path, the worker finds a regular file with the target's inode, and
  nothing in the program excludes the target's own entry: the run prints three lines,
  started as \<^verbatim>\<open>-p root\<close> from the directory above or from \<^verbatim>\<open>root\<close> itself.
\<close>

theorem example_scan_counterexample:
  "lfinder example_env (fsNode example_root ''/work'' False ''root'')
     (mkConfig False False ''root'' 30) [''a.txt'']
   = Exit 0 [''root/a.txt (hardlink)'', ''root/link_to_a (symlink) -> a.txt'',
             ''root/sub/hard_a (hardlink)'']
   \<and> lfinder (unix_env example_root ''/work/root'')
       (fsNode example_root ''/work/root'' False ''.'') (mkConfig False False ''.'' 30)
       [''a.txt'']
   = Exit 0 [''a.txt (hardlink)'', ''link_to_a (symlink) -> a.txt'', ''sub/hard_a (hardlink)'']"
proof (intro conjI)
  show "lfinder example_env (fsNode example_root ''/work'' False ''root'')
     (mkConfig False False ''root'' 30) [''a.txt'']
   = Exit 0 [''root/a.txt (hardlink)'', ''root/link_to_a (symlink) -> a.txt'',
             ''root/sub/hard_a (hardlink)'']"
    by code_simp
  show "lfinder (unix_env example_root ''/work/root'')
       (fsNode example_root ''/work/root'' False ''.'') (mkConfig False False ''.'' 30)
       [''a.txt'']
   = Exit 0 [''a.txt (hardlink)'', ''link_to_a (symlink) -> a.txt'', ''sub/hard_a (hardlink)'']"
    by code_simp
qed

end
